theory Spec2Isabelle
  imports Main
begin

section \<open>The section-loading middleware (client/sections-middleware.js)\<close>

text \<open>
  The middleware registers one route handler per path of every section definition. The
  handler talks to collaborators that are imported, not defined, by the file: the router
  (\<^verbatim>\<open>page\<close>), the store of the route context, \<^verbatim>\<open>controller\<close>, \<^verbatim>\<open>preload\<close>,
  \<^verbatim>\<open>LoadingError\<close>, the timer functions of the platform. Each call on a collaborator is
  recorded, in order, in a trace; a collaborator call returns normally, and a section load
  fails exactly when the promise of \<^verbatim>\<open>preload\<close> rejects. The console output of the file
  changes nothing and is left out.
\<close>

subsection \<open>Data\<close>

text \<open>A route context and a loaded module object are known by their identity only.\<close>

type_synonym route_context = nat
type_synonym loaded_module = nat

text \<open>
  A section definition, as the handler reads it: \<^verbatim>\<open>name\<close>, \<^verbatim>\<open>module\<close>, \<^verbatim>\<open>paths\<close> and
  the optional \<^verbatim>\<open>envId\<close> array (\<open>None\<close> when the property is absent).
\<close>

record sectionDefinition =
  name :: string
  module :: string
  paths :: "string list"
  envId :: "string list option"

text \<open>The two configuration values read: \<^verbatim>\<open>config( 'env_id' )\<close> and \<^verbatim>\<open>process.env.NODE_ENV\<close>.\<close>

record environment =
  env_id :: string
  NODE_ENV :: string

text \<open>The shared router handle \<^verbatim>\<open>controller.clientRouter\<close>.\<close>

datatype router = clientRouter

text \<open>
  The actions handed to \<^verbatim>\<open>dispatch\<close>: the literal \<^verbatim>\<open>{ type: 'SECTION_SET', isLoading }\<close>,
  and the results of the action creators \<^verbatim>\<open>activateNextLayoutFocus()\<close> and
  \<^verbatim>\<open>bumpStat( group, name )\<close>.
\<close>

datatype action =
    SECTION_SET bool
  | activateNextLayoutFocus
  | bumpStat string string

text \<open>The calls on collaborators, as they appear in the trace.\<close>

datatype effect =
    SetSection sectionDefinition route_context
  | Dispatch route_context action
  | Next route_context
  | Preload string
  | ModuleDefault loaded_module router
  | Retry string
  | Show route_context string

text \<open>
  The world the handler runs in.
  \<^item> \<open>loadedSections\<close> is the object \<^verbatim>\<open>_loadedSections\<close>, from module identifier to flag;
  \<^item> \<open>trace\<close> holds the collaborator calls made so far, oldest first;
  \<^item> \<open>timeouts\<close> holds the pending \<^verbatim>\<open>setTimeout\<close> callbacks: handle, the clock value at
    which the callback is due, and what the callback captured (the context whose store
    it dispatches to, and the section name);
  \<^item> \<open>promises\<close> holds the \<^verbatim>\<open>preload\<close> promises not yet settled: handle, and what the
    callbacks chained on it captured (section definition, context, \<^verbatim>\<open>loadReportTimeout\<close>);
  \<^item> \<open>clock\<close> is the time, in the unit of \<^verbatim>\<open>setTimeout\<close>; \<open>nextHandle\<close> is the next unused
    handle; \<open>retryAttempt\<close> is what \<^verbatim>\<open>LoadingError.isRetry()\<close> answers.
\<close>

record world =
  loadedSections :: "string \<rightharpoonup> bool"
  trace :: "effect list"
  timeouts :: "(nat \<times> nat \<times> route_context \<times> string) list"
  promises :: "(nat \<times> sectionDefinition \<times> route_context \<times> nat) list"
  clock :: nat
  nextHandle :: nat
  retryAttempt :: bool

text \<open>How a \<^verbatim>\<open>preload\<close> promise settles: with the required modules, or rejected.\<close>

datatype outcome = Resolved "loaded_module list" | Rejected

subsection \<open>Collaborators\<close>

definition emit :: "effect \<Rightarrow> world \<Rightarrow> world" where
  "emit e w = w\<lparr>trace := trace w @ [e]\<rparr>"

text \<open>\<^verbatim>\<open>_loadedSections[ m ]\<close> read as a condition: an absent property is falsy.\<close>

definition isLoaded :: "world \<Rightarrow> string \<Rightarrow> bool" where
  "isLoaded w m = (case loadedSections w m of Some b \<Rightarrow> b | None \<Rightarrow> False)"

text \<open>
  The only timer callback of the file:
  \<^verbatim>\<open>() => dispatch( bumpStat( 'calypso_chunk_waiting', sectionDefinition.name ) )\<close>.
\<close>

definition reportWaiting :: "route_context \<Rightarrow> string \<Rightarrow> effect" where
  "reportWaiting ctx sectionName = Dispatch ctx (bumpStat ''calypso_chunk_waiting'' sectionName)"

text \<open>
  \<^verbatim>\<open>setTimeout( f, delay )\<close> takes the next handle and makes the callback due \<open>delay\<close>
  after the current clock; \<^verbatim>\<open>clearTimeout( h )\<close> drops the pending callback of handle
  \<open>h\<close>, if any.
\<close>

definition setTimeout :: "route_context \<Rightarrow> string \<Rightarrow> nat \<Rightarrow> world \<Rightarrow> nat \<times> world" where
  "setTimeout ctx sectionName delay w =
     (nextHandle w,
      w\<lparr>timeouts := timeouts w @ [(nextHandle w, clock w + delay, ctx, sectionName)],
        nextHandle := Suc (nextHandle w)\<rparr>)"

definition clearTimeout :: "nat \<Rightarrow> world \<Rightarrow> world" where
  "clearTimeout h w = w\<lparr>timeouts := filter (\<lambda>t. fst t \<noteq> h) (timeouts w)\<rparr>"

text \<open>
  Modelled from the spec: \<^verbatim>\<open>isRetry\<close> of \<^verbatim>\<open>layout/error\<close> (imported as
  \<^verbatim>\<open>LoadingError\<close>), which is not among the sources. The spec calls the module an
  error-display utility with retry tracking; \<^verbatim>\<open>isRetry\<close> tells whether the present
  attempt already is a retry.
\<close>

definition LoadingError_isRetry :: "world \<Rightarrow> bool" where
  "LoadingError_isRetry w = retryAttempt w"

text \<open>
  Modelled from the spec: \<^verbatim>\<open>retry\<close> of \<^verbatim>\<open>layout/error\<close>, not among the sources. It
  triggers the retry of the named section load; from then on the attempt is a retry.
\<close>

definition LoadingError_retry :: "string \<Rightarrow> world \<Rightarrow> world" where
  "LoadingError_retry chunk w = emit (Retry chunk) (w\<lparr>retryAttempt := True\<rparr>)"

text \<open>
  Modelled from the spec: \<^verbatim>\<open>show\<close> of \<^verbatim>\<open>layout/error\<close>, not among the sources. It puts
  up the loading-error display bound to the route context, for the named section.
\<close>

definition LoadingError_show :: "route_context \<Rightarrow> string \<Rightarrow> world \<Rightarrow> world" where
  "LoadingError_show ctx chunk w = emit (Show ctx chunk) w"

subsection \<open>activateSection\<close>

definition activateSection :: "sectionDefinition \<Rightarrow> route_context \<Rightarrow> world \<Rightarrow> world" where
  "activateSection sd ctx w =
     (let w1 = emit (SetSection sd ctx) w;
          w2 = emit (Dispatch ctx (SECTION_SET False)) w1;
          w3 = emit (Dispatch ctx activateNextLayoutFocus) w2
      in emit (Next ctx) w3)"

subsection \<open>The route handler of createPageDefinition\<close>

text \<open>
  \<^verbatim>\<open>envId && envId.indexOf( config( 'env_id' ) ) === -1\<close>: the section declares a list
  and the current environment id is not an element of it.
\<close>

definition envRestricted :: "environment \<Rightarrow> sectionDefinition \<Rightarrow> bool" where
  "envRestricted env sd =
     (case envId sd of None \<Rightarrow> False | Some ids \<Rightarrow> env_id env \<notin> set ids)"

text \<open>The callback of \<^verbatim>\<open>.then\<close>: initialise once, mark, activate.\<close>

definition initModules :: "loaded_module list \<Rightarrow> world \<Rightarrow> world" where
  "initModules requiredModules w =
     foldl (\<lambda>v m. emit (ModuleDefault m clientRouter) v) w requiredModules"

definition onResolved ::
  "sectionDefinition \<Rightarrow> route_context \<Rightarrow> loaded_module list \<Rightarrow> world \<Rightarrow> world" where
  "onResolved sd ctx requiredModules w =
     (if \<not> isLoaded w (module sd)
      then let w1 = initModules requiredModules w;
               w2 = w1\<lparr>loadedSections := (loadedSections w1)(module sd \<mapsto> True)\<rparr>
           in activateSection sd ctx w2
      else activateSection sd ctx w)"

text \<open>The callback of \<^verbatim>\<open>.catch\<close>: retry once outside development, else show the error.\<close>

definition onRejected :: "environment \<Rightarrow> sectionDefinition \<Rightarrow> route_context \<Rightarrow> world \<Rightarrow> world" where
  "onRejected env sd ctx w =
     (if \<not> LoadingError_isRetry w \<and> NODE_ENV env \<noteq> ''development''
      then LoadingError_retry (name sd) w
      else let w1 = emit (Dispatch ctx (SECTION_SET False)) w
           in LoadingError_show ctx (name sd) w1)"

text \<open>
  The handler itself, up to the point where it returns: the environment check, the
  shortcut for a loaded section, and the start of a load (loading flag, timer,
  \<^verbatim>\<open>preload\<close> with its callbacks chained).
\<close>

definition pageHandler :: "environment \<Rightarrow> sectionDefinition \<Rightarrow> route_context \<Rightarrow> world \<Rightarrow> world" where
  "pageHandler env sd ctx w =
     (if envRestricted env sd then emit (Next ctx) w
      else if isLoaded w (module sd) then activateSection sd ctx w
      else let w1 = emit (Dispatch ctx (SECTION_SET True)) w;
               (loadReportTimeout, w2) = setTimeout ctx (name sd) 400 w1;
               w3 = emit (Preload (name sd)) w2
           in w3\<lparr>promises := promises w3 @ [(loadReportTimeout, sd, ctx, loadReportTimeout)]\<rparr>)"

text \<open>
  A promise settles at most once. Its callbacks run in the order of the chain: the
  callback of \<^verbatim>\<open>.then\<close> or of \<^verbatim>\<open>.catch\<close>, then the last \<^verbatim>\<open>.then\<close>, which clears the
  timer. Settling a handle that is not pending does nothing.
\<close>

definition settle :: "environment \<Rightarrow> nat \<Rightarrow> outcome \<Rightarrow> world \<Rightarrow> world" where
  "settle env p out w =
     (case map_of (promises w) p of
        None \<Rightarrow> w
      | Some (sd, ctx, loadReportTimeout) \<Rightarrow>
          let w1 = w\<lparr>promises := filter (\<lambda>e. fst e \<noteq> p) (promises w)\<rparr>;
              w2 = (case out of
                      Resolved requiredModules \<Rightarrow> onResolved sd ctx requiredModules w1
                    | Rejected \<Rightarrow> onRejected env sd ctx w1)
          in clearTimeout loadReportTimeout w2)"

text \<open>
  Time passing: the clock advances by \<open>d\<close>, and every pending timer callback that is due
  by then runs, once, in the order the timers were set, and is pending no more.
\<close>

definition isDue :: "nat \<Rightarrow> (nat \<times> nat \<times> route_context \<times> string) \<Rightarrow> bool" where
  "isDue t e = (fst (snd e) \<le> t)"

definition fired :: "nat \<Rightarrow> world \<Rightarrow> effect list" where
  "fired d w =
     map (\<lambda>e. reportWaiting (fst (snd (snd e))) (snd (snd (snd e))))
       (filter (isDue (clock w + d)) (timeouts w))"

definition elapse :: "nat \<Rightarrow> world \<Rightarrow> world" where
  "elapse d w =
     w\<lparr>trace := trace w @ fired d w,
       timeouts := filter (\<lambda>e. \<not> isDue (clock w + d) e) (timeouts w),
       clock := clock w + d\<rparr>"

text \<open>What can happen, and a run of the middleware over a sequence of happenings.\<close>

datatype event =
    RouteMatch sectionDefinition route_context
  | Settle nat outcome
  | Elapse nat

fun step :: "environment \<Rightarrow> world \<Rightarrow> event \<Rightarrow> world" where
  "step env w (RouteMatch sd ctx) = pageHandler env sd ctx w"
| "step env w (Settle p out) = settle env p out w"
| "step env w (Elapse d) = elapse d w"

definition run :: "environment \<Rightarrow> event list \<Rightarrow> world \<Rightarrow> world" where
  "run env evs w = foldl (step env) w evs"

text \<open>The world when the file has just been loaded: nothing loaded, nothing pending.\<close>

definition initialWorld :: world where
  "initialWorld =
     \<lparr>loadedSections = Map.empty, trace = [], timeouts = [], promises = [],
      clock = 0, nextHandle = 0, retryAttempt = False\<rparr>"

subsection \<open>Notions used in the statements\<close>

text \<open>The calls of \<^verbatim>\<open>LoadingError.retry\<close> among the calls of a trace.\<close>

fun isRetryCall :: "effect \<Rightarrow> bool" where
  "isRetryCall (Retry _) = True"
| "isRetryCall _ = False"

text \<open>
  Modelled from the spec: the reducer of the store is not among the sources. The spec has
  \<^verbatim>\<open>SECTION_SET\<close> set and clear the application-wide loading flag: after a list of
  calls, the flag is the \<^verbatim>\<open>isLoading\<close> of the last \<^verbatim>\<open>SECTION_SET\<close> dispatched, and is
  what it was before (\<open>b\<close>) when there is none.
\<close>

fun isLoadingAfter :: "bool \<Rightarrow> effect list \<Rightarrow> bool" where
  "isLoadingAfter b [] = b"
| "isLoadingAfter b (Dispatch c (SECTION_SET l) # es) = isLoadingAfter l es"
| "isLoadingAfter b (e # es) = isLoadingAfter b es"

text \<open>The calls made on the way from world \<open>w\<close> to a later world \<open>w'\<close>.\<close>

definition newCalls :: "world \<Rightarrow> world \<Rightarrow> effect list" where
  "newCalls w w' = drop (length (trace w)) (trace w')"

text \<open>The retries made so far, plus the one still allowed when the attempt is no retry.\<close>

definition retryBudget :: "world \<Rightarrow> nat" where
  "retryBudget w = length (filter isRetryCall (trace w)) + (if retryAttempt w then 0 else 1)"

text \<open>
  Handles are handed out in order: every pending promise has a handle below the next
  unused one.
\<close>

definition handlesFresh :: "world \<Rightarrow> bool" where
  "handlesFresh w = (\<forall>h \<in> fst ` set (promises w). h < nextHandle w)"

subsection \<open>Example data\<close>

definition production :: environment where
  "production = \<lparr>env_id = ''production'', NODE_ENV = ''production''\<rparr>"

definition devdocs :: sectionDefinition where
  "devdocs = \<lparr>name = ''devdocs'', module = ''devdocs'', paths = [''/devdocs''],
               envId = Some [''development'', ''wpcalypso'']\<rparr>"

definition themes :: sectionDefinition where
  "themes = \<lparr>name = ''themes'', module = ''my-sites/themes'', paths = [''/themes''],
              envId = None\<rparr>"

text \<open>
  Two worlds: the one in which the first route match for \<open>themes\<close>, in context 1, has
  started a load, and the one in which a second route match, in context 2, has started
  another load and the first load has then resolved with the modules 10 and 11.
\<close>

definition themesLoading :: world where
  "themesLoading =
     \<lparr>loadedSections = Map.empty,
      trace = [Dispatch 1 (SECTION_SET True), Preload ''themes''],
      timeouts = [(0, 400, 1, ''themes'')], promises = [(0, themes, 1, 0)],
      clock = 0, nextHandle = 1, retryAttempt = False\<rparr>"

definition themesLoadedPending :: world where
  "themesLoadedPending =
     \<lparr>loadedSections = [''my-sites/themes'' \<mapsto> True],
      trace = [Dispatch 1 (SECTION_SET True), Preload ''themes'',
               Dispatch 2 (SECTION_SET True), Preload ''themes'',
               ModuleDefault 10 clientRouter, ModuleDefault 11 clientRouter,
               SetSection themes 1, Dispatch 1 (SECTION_SET False),
               Dispatch 1 activateNextLayoutFocus, Next 1],
      timeouts = [(1, 400, 2, ''themes'')], promises = [(1, themes, 2, 1)],
      clock = 0, nextHandle = 2, retryAttempt = False\<rparr>"

section \<open>The purchase selectors (state/purchases/selectors, as its test file uses them)\<close>

text \<open>
  The test file of the selectors is among the sources; the selectors and the assembler
  they call (\<^verbatim>\<open>lib/purchases/assembler\<close>) are not. They are modelled here from the spec,
  with the tests fixing what the spec leaves open.
\<close>

subsection \<open>Values\<close>

text \<open>
  The values of the language that purchase records hold. The numbers of the model are the
  integers and \<open>NaN\<close>. \<open>Moment v\<close> is the date object made from \<open>v\<close>.
\<close>

datatype jsnum = NaN | Num int

datatype jsval =
    Undefined
  | Null
  | JBool bool
  | JNum jsnum
  | JStr string
  | Moment jsval

text \<open>A raw record, as the server sends it: an object, from property name to value.\<close>

type_synonym raw_purchase = "string \<rightharpoonup> jsval"

text \<open>Reading a property: an absent property reads as \<^verbatim>\<open>undefined\<close>.\<close>

definition rawProp :: "raw_purchase \<Rightarrow> string \<Rightarrow> jsval" where
  "rawProp r k = (case r k of None \<Rightarrow> Undefined | Some v \<Rightarrow> v)"

subsection \<open>Conversions of the language\<close>

text \<open>The value of a decimal digit; \<open>None\<close> for any other character.\<close>

definition digitVal :: "char \<Rightarrow> nat option" where
  "digitVal c = map_of (zip ''0123456789'' [0, 1, 2, 3, 4, 5, 6, 7, 8, 9]) c"

fun parseDigits :: "nat \<Rightarrow> string \<Rightarrow> nat option" where
  "parseDigits acc [] = Some acc"
| "parseDigits acc (c # cs) =
     (case digitVal c of None \<Rightarrow> None | Some d \<Rightarrow> parseDigits (10 * acc + d) cs)"

text \<open>
  \<^verbatim>\<open>Number( s )\<close> of a string, for the numerals of the model: the empty string is 0, a
  string of decimal digits, with or without a minus sign, is its value, anything else is
  \<open>NaN\<close>.
\<close>

definition stringToNumber :: "string \<Rightarrow> jsnum" where
  "stringToNumber s =
     (case s of
        [] \<Rightarrow> Num 0
      | c # cs \<Rightarrow>
          if c = CHR ''-'' \<and> cs \<noteq> []
          then (case parseDigits 0 cs of None \<Rightarrow> NaN | Some n \<Rightarrow> Num (- int n))
          else (case parseDigits 0 s of None \<Rightarrow> NaN | Some n \<Rightarrow> Num (int n)))"

text \<open>\<^verbatim>\<open>Number( v )\<close>.\<close>

fun toNumber :: "jsval \<Rightarrow> jsnum" where
  "toNumber Undefined = NaN"
| "toNumber Null = Num 0"
| "toNumber (JBool b) = Num (if b then 1 else 0)"
| "toNumber (JNum n) = n"
| "toNumber (JStr s) = stringToNumber s"
| "toNumber (Moment v) = NaN"

text \<open>\<^verbatim>\<open>Boolean( v )\<close>, also the reading of a value as a condition.\<close>

fun toBoolean :: "jsval \<Rightarrow> bool" where
  "toBoolean Undefined = False"
| "toBoolean Null = False"
| "toBoolean (JBool b) = b"
| "toBoolean (JNum NaN) = False"
| "toBoolean (JNum (Num n)) = (n \<noteq> 0)"
| "toBoolean (JStr s) = (s \<noteq> [])"
| "toBoolean (Moment v) = True"

definition digitChar :: "nat \<Rightarrow> char" where
  "digitChar d = ''0123456789'' ! d"

fun showNat :: "nat \<Rightarrow> string" where
  "showNat n = (if n < 10 then [digitChar n] else showNat (n div 10) @ [digitChar (n mod 10)])"

text \<open>The text of a value inside a template string.\<close>

fun toStringJS :: "jsval \<Rightarrow> string" where
  "toStringJS Undefined = ''undefined''"
| "toStringJS Null = ''null''"
| "toStringJS (JBool b) = (if b then ''true'' else ''false'')"
| "toStringJS (JNum NaN) = ''NaN''"
| "toStringJS (JNum (Num n)) = (if n < 0 then CHR ''-'' # showNat (nat (- n)) else showNat (nat n))"
| "toStringJS (JStr s) = s"
| "toStringJS (Moment v) = toStringJS v"

text \<open>
  \<^verbatim>\<open>a === b\<close>: the same kind of value and the same value; \<open>NaN\<close> equals nothing, and two
  date objects are two objects.
\<close>

fun strictEquals :: "jsval \<Rightarrow> jsval \<Rightarrow> bool" where
  "strictEquals Undefined Undefined = True"
| "strictEquals Null Null = True"
| "strictEquals (JBool a) (JBool b) = (a = b)"
| "strictEquals (JNum (Num a)) (JNum (Num b)) = (a = b)"
| "strictEquals (JStr a) (JStr b) = (a = b)"
| "strictEquals _ _ = False"

text \<open>
  The \<^verbatim>\<open>camelCase\<close> the assembler applies to the expiry status (a library function): no
  text for an absent value; for a text, the words between underscores, hyphens and
  spaces, the first as it is, each later one with its first letter in upper case. The
  status words of the model are in lower case.
\<close>

definition upperChar :: "char \<Rightarrow> char" where
  "upperChar c =
     (if 97 \<le> (of_char c :: nat) \<and> (of_char c :: nat) \<le> 122
      then char_of (of_char c - 32 :: nat) else c)"

definition isSeparator :: "char \<Rightarrow> bool" where
  "isSeparator c = (c = CHR ''_'' \<or> c = CHR ''-'' \<or> c = CHR '' '')"

fun camelWords :: "bool \<Rightarrow> bool \<Rightarrow> string \<Rightarrow> string" where
  "camelWords started up [] = []"
| "camelWords started up (c # cs) =
     (if isSeparator c then camelWords started started cs
      else (if up then upperChar c else c) # camelWords True False cs)"

fun camelCase :: "jsval \<Rightarrow> string" where
  "camelCase Undefined = []"
| "camelCase Null = []"
| "camelCase v = camelWords False False (toStringJS v)"

subsection \<open>The view model\<close>

text \<open>The payment part of a purchase: \<^verbatim>\<open>countryCode\<close>, \<^verbatim>\<open>countryName\<close>, \<^verbatim>\<open>name\<close>, \<^verbatim>\<open>type\<close>.\<close>

record payment =
  countryCode :: jsval
  countryName :: jsval
  paymentName :: jsval
  paymentType :: jsval

text \<open>
  A purchase, with the properties the test of \<^verbatim>\<open>getByPurchaseId\<close> lists. Numeric
  properties are numbers, flags are booleans, texts built by the assembler are strings,
  and a property handed on from the raw record is any value. The property \<^verbatim>\<open>id\<close> is
  the field \<open>purchaseId\<close>, \<^verbatim>\<open>error\<close> is \<open>purchaseError\<close>.
\<close>

record purchase =
  purchaseId :: jsnum
  productName :: jsval
  siteId :: jsnum
  active :: bool
  amount :: jsnum
  attachedToPurchaseId :: jsnum
  canExplicitRenew :: bool
  canDisableAutoRenew :: bool
  currencyCode :: jsval
  currencySymbol :: jsval
  domain :: jsval
  purchaseError :: jsval
  expiryDate :: jsval
  expiryMoment :: jsval
  expiryStatus :: string
  hasPrivacyProtection :: bool
  includedDomain :: jsval
  isCancelable :: bool
  isDomainRegistration :: bool
  isRefundable :: bool
  isRenewable :: bool
  isRenewal :: bool
  meta :: jsval
  payment :: payment
  priceText :: string
  productId :: jsnum
  productSlug :: jsval
  pendingTransfer :: bool
  refundPeriodInDays :: jsval
  refundAmount :: jsnum
  refundText :: string
  renewDate :: jsval
  renewMoment :: jsval
  siteName :: jsval
  subscribedDate :: jsval
  subscriptionStatus :: jsval
  tagLine :: jsval
  userId :: jsnum

text \<open>
  Modelled from the spec: the assembler \<^verbatim>\<open>createPurchasesArray\<close> of
  \<^verbatim>\<open>lib/purchases/assembler\<close> is not among the sources. The spec has it turn each raw
  record into a fully shaped view model, with "not a number" for a missing numeric
  field, \<^verbatim>\<open>undefined\<close> for a missing optional field and false for a missing flag, and
  never fail on a record that is only partly filled. The test of \<^verbatim>\<open>getByPurchaseId\<close>
  gives the shape and, for a record with \<^verbatim>\<open>ID\<close>, \<^verbatim>\<open>product_name\<close> and \<^verbatim>\<open>blog_id\<close> only,
  every value. So: a numeric property is \<^verbatim>\<open>Number\<close> of its raw property, a flag is
  \<^verbatim>\<open>Boolean\<close> of it, an optional property is the raw property itself, \<^verbatim>\<open>error\<close> is
  \<^verbatim>\<open>null\<close>, a moment is \<^verbatim>\<open>null\<close> without its date, the expiry status is the camel-cased
  raw status, and the two texts put the currency symbol before the amount. The tests name
  the raw properties \<^verbatim>\<open>ID\<close>, \<^verbatim>\<open>product_name\<close>, \<^verbatim>\<open>blog_id\<close>, \<^verbatim>\<open>user_id\<close>, \<^verbatim>\<open>product_slug\<close>,
  \<^verbatim>\<open>meta\<close>, \<^verbatim>\<open>included_domain\<close> and \<^verbatim>\<open>is_domain_registration\<close>; the other raw names are
  taken to be the view model's names in the same style.
\<close>

definition createPurchaseObject :: "raw_purchase \<Rightarrow> purchase" where
  "createPurchaseObject r =
     \<lparr>purchaseId = toNumber (rawProp r ''ID''),
      productName = rawProp r ''product_name'',
      siteId = toNumber (rawProp r ''blog_id''),
      active = toBoolean (rawProp r ''active''),
      amount = toNumber (rawProp r ''amount''),
      attachedToPurchaseId = toNumber (rawProp r ''attached_to_purchase_id''),
      canExplicitRenew = toBoolean (rawProp r ''can_explicit_renew''),
      canDisableAutoRenew = toBoolean (rawProp r ''can_disable_auto_renew''),
      currencyCode = rawProp r ''currency_code'',
      currencySymbol = rawProp r ''currency_symbol'',
      domain = rawProp r ''domain'',
      purchaseError = Null,
      expiryDate = rawProp r ''expiry_date'',
      expiryMoment =
        (if toBoolean (rawProp r ''expiry_date'') then Moment (rawProp r ''expiry_date'') else Null),
      expiryStatus = camelCase (rawProp r ''expiry_status''),
      hasPrivacyProtection = toBoolean (rawProp r ''has_private_registration''),
      includedDomain = rawProp r ''included_domain'',
      isCancelable = toBoolean (rawProp r ''is_cancelable''),
      isDomainRegistration = toBoolean (rawProp r ''is_domain_registration''),
      isRefundable = toBoolean (rawProp r ''is_refundable''),
      isRenewable = toBoolean (rawProp r ''is_renewable''),
      isRenewal = toBoolean (rawProp r ''is_renewal''),
      meta = rawProp r ''meta'',
      payment =
        \<lparr>countryCode = rawProp r ''payment_country_code'',
         countryName = rawProp r ''payment_country_name'',
         paymentName = rawProp r ''payment_name'',
         paymentType = rawProp r ''payment_type''\<rparr>,
      priceText = toStringJS (rawProp r ''currency_symbol'') @ toStringJS (rawProp r ''amount''),
      productId = toNumber (rawProp r ''product_id''),
      productSlug = rawProp r ''product_slug'',
      pendingTransfer = toBoolean (rawProp r ''pending_transfer''),
      refundPeriodInDays = rawProp r ''refund_period_in_days'',
      refundAmount = toNumber (rawProp r ''refund_amount''),
      refundText =
        toStringJS (rawProp r ''currency_symbol'') @ toStringJS (rawProp r ''refund_amount''),
      renewDate = rawProp r ''renew_date'',
      renewMoment =
        (if toBoolean (rawProp r ''renew_date'') then Moment (rawProp r ''renew_date'') else Null),
      siteName = rawProp r ''blogname'',
      subscribedDate = rawProp r ''subscribed_date'',
      subscriptionStatus = rawProp r ''subscription_status'',
      tagLine = rawProp r ''tag_line'',
      userId = toNumber (rawProp r ''user_id'')\<rparr>"

text \<open>
  Modelled from the spec: \<^verbatim>\<open>createPurchasesArray\<close> of the same assembler, not among the
  sources: one view model per raw record, in the order of the records.
\<close>

definition createPurchasesArray :: "raw_purchase list \<Rightarrow> purchase list" where
  "createPurchasesArray dataList = map createPurchaseObject dataList"

subsection \<open>The state and the selectors\<close>

text \<open>The part \<^verbatim>\<open>state.purchases\<close> of the global state, as the tests build it.\<close>

record purchases =
  data :: "raw_purchase list"
  error :: jsval
  isFetchingSitePurchases :: bool
  isFetchingUserPurchases :: bool
  hasLoadedSitePurchasesFromServer :: bool
  hasLoadedUserPurchasesFromServer :: bool

text \<open>
  Modelled from the spec: \<^verbatim>\<open>getPurchases\<close> of \<^verbatim>\<open>state/purchases/selectors\<close>, which is
  not among the sources (its test file is). The spec has it map the raw records of the
  state through the assembler.
\<close>

definition getPurchases :: "purchases \<Rightarrow> purchase list" where
  "getPurchases st = createPurchasesArray (data st)"

text \<open>
  Modelled from the spec: \<^verbatim>\<open>getByPurchaseId\<close>, not among the sources. The spec has it
  find the first purchase with the numeric id; \<open>None\<close> is the \<^verbatim>\<open>undefined\<close> of no match.
\<close>

definition getByPurchaseId :: "purchases \<Rightarrow> jsval \<Rightarrow> purchase option" where
  "getByPurchaseId st wanted =
     find (\<lambda>p. strictEquals (JNum (purchaseId p)) wanted) (getPurchases st)"

text \<open>
  Modelled from the spec: \<^verbatim>\<open>getSitePurchases\<close>, not among the sources. The spec has it
  keep the purchases whose site identifier, made a number by the assembler, equals the
  query; its test asks with the number 1234 for records that hold the string.
\<close>

definition getSitePurchases :: "purchases \<Rightarrow> jsval \<Rightarrow> purchase list" where
  "getSitePurchases st wanted =
     filter (\<lambda>p. strictEquals (JNum (siteId p)) wanted) (getPurchases st)"

text \<open>
  The answer \<^verbatim>\<open>false\<close> a selector gives in place of a value, and the product slug that
  marks a theme.
\<close>

datatype 'a orFalse = IsFalse | Value 'a

definition premiumThemeSlug :: jsval where
  "premiumThemeSlug = JStr ''premium_theme''"

text \<open>
  Modelled from the spec: the purchases of a user, which the three gated selectors start
  from; not among the sources. The tests tell the purchases of a user by \<^verbatim>\<open>user_id\<close>.
\<close>

definition getUserPurchases :: "purchases \<Rightarrow> jsval \<Rightarrow> purchase list" where
  "getUserPurchases st wanted =
     filter (\<lambda>p. strictEquals (JNum (userId p)) wanted) (getPurchases st)"

text \<open>
  Modelled from the spec: \<^verbatim>\<open>isUserPaid\<close>, not among the sources. The spec has it need
  the user-scoped "loaded from server" flag and answer "no" without it; with the flag,
  the tests have a user paid when some purchase is the user's.
\<close>

definition isUserPaid :: "purchases \<Rightarrow> jsval \<Rightarrow> bool" where
  "isUserPaid st wanted =
     (hasLoadedUserPurchasesFromServer st \<and> 0 < length (getUserPurchases st wanted))"

text \<open>
  Modelled from the spec: \<^verbatim>\<open>hasCancelableUserPurchases\<close>, not among the sources. The
  spec has it need the same flag and answer false without it; with the flag, the tests
  have the purchases of a user cancelable unless all of them are themes.
\<close>

definition hasCancelableUserPurchases :: "purchases \<Rightarrow> jsval \<Rightarrow> bool" where
  "hasCancelableUserPurchases st wanted =
     (if \<not> hasLoadedUserPurchasesFromServer st then False
      else 0 < length (filter (\<lambda>p. \<not> strictEquals (productSlug p) premiumThemeSlug)
                         (getUserPurchases st wanted)))"

text \<open>
  Modelled from the spec: \<^verbatim>\<open>getUserPurchasedPremiumThemes\<close>, not among the sources. The
  spec has it need the same flag, and keep the purchases whose product slug is the theme
  marker and whose user id is the user's; without the flag its test expects the value
  \<^verbatim>\<open>false\<close>.
\<close>

definition getUserPurchasedPremiumThemes :: "purchases \<Rightarrow> jsval \<Rightarrow> purchase list orFalse" where
  "getUserPurchasedPremiumThemes st wanted =
     (if \<not> hasLoadedUserPurchasesFromServer st then IsFalse
      else Value (filter (\<lambda>p. strictEquals premiumThemeSlug (productSlug p)
                                \<and> strictEquals (JNum (userId p)) wanted)
                    (getPurchases st)))"

text \<open>
  Modelled from the spec: a call of \<^verbatim>\<open>getPurchases\<close> seen with the identity of its
  result; the selector is not among the sources. The spec has every call return a new
  sequence, nothing being cached. Arrays live in a store, an array being known by its
  address; a call puts the sequence at the next free address and returns that address.
\<close>

type_synonym array_store = "purchase list list"

definition getPurchasesCall :: "purchases \<Rightarrow> array_store \<Rightarrow> nat \<times> array_store" where
  "getPurchasesCall st h = (length h, h @ [getPurchases st])"

subsection \<open>The states of the tests\<close>

definition domainRecord :: raw_purchase where
  "domainRecord =
     [''ID'' \<mapsto> JNum (Num 1), ''product_name'' \<mapsto> JStr ''domain registration'',
      ''blog_id'' \<mapsto> JNum (Num 1337)]"

definition planRecord :: raw_purchase where
  "planRecord =
     [''ID'' \<mapsto> JNum (Num 2), ''product_name'' \<mapsto> JStr ''premium plan'',
      ''blog_id'' \<mapsto> JNum (Num 1337)]"

definition themeRecord :: raw_purchase where
  "themeRecord =
     [''ID'' \<mapsto> JNum (Num 3), ''product_name'' \<mapsto> JStr ''premium theme'',
      ''product_slug'' \<mapsto> JStr ''premium_theme'', ''blog_id'' \<mapsto> JNum (Num 1337)]"

text \<open>The state of the test of \<^verbatim>\<open>getByPurchaseId\<close>.\<close>

definition planState :: purchases where
  "planState =
     \<lparr>data = [domainRecord, planRecord], error = Null,
      isFetchingSitePurchases = False, isFetchingUserPurchases = False,
      hasLoadedSitePurchasesFromServer = False, hasLoadedUserPurchasesFromServer = True\<rparr>"

text \<open>The state of the test of \<^verbatim>\<open>getSitePurchases\<close>.\<close>

definition siteRecords :: "raw_purchase list" where
  "siteRecords =
     [[''ID'' \<mapsto> JStr ''81414'', ''blog_id'' \<mapsto> JStr ''1234''],
      [''ID'' \<mapsto> JStr ''82867'', ''blog_id'' \<mapsto> JStr ''1234''],
      [''ID'' \<mapsto> JStr ''105103'', ''blog_id'' \<mapsto> JStr ''123'']]"

definition siteState :: purchases where
  "siteState =
     \<lparr>data = siteRecords, error = Null,
      isFetchingSitePurchases = True, isFetchingUserPurchases = False,
      hasLoadedSitePurchasesFromServer = False, hasLoadedUserPurchasesFromServer = False\<rparr>"

text \<open>
  The purchases of user 123 in the tests of the three gated selectors, and the states
  that hold them: not ready, and loaded.
\<close>

definition userRecords :: "raw_purchase list" where
  "userRecords =
     [domainRecord(''user_id'' \<mapsto> JNum (Num 123)),
      planRecord(''user_id'' \<mapsto> JNum (Num 123)),
      themeRecord(''user_id'' \<mapsto> JNum (Num 123))]"

definition notReadyState :: purchases where
  "notReadyState =
     \<lparr>data = userRecords, error = Null,
      isFetchingSitePurchases = False, isFetchingUserPurchases = False,
      hasLoadedSitePurchasesFromServer = False, hasLoadedUserPurchasesFromServer = False\<rparr>"

definition loadedState :: purchases where
  "loadedState = notReadyState\<lparr>hasLoadedUserPurchasesFromServer := True\<rparr>"

section \<open>Properties of the middleware\<close>

subsection \<open>Basic facts\<close>

lemma trace_emit: "trace (emit e w) = trace w @ [e]"
  by (simp add: emit_def)

lemma trace_activateSection:
  "trace (activateSection sd ctx w) =
     trace w @ [SetSection sd ctx, Dispatch ctx (SECTION_SET False),
                Dispatch ctx activateNextLayoutFocus, Next ctx]"
  by (simp add: activateSection_def emit_def)

lemma activateSection_frame:
  "loadedSections (activateSection sd ctx w) = loadedSections w"
  "timeouts (activateSection sd ctx w) = timeouts w"
  "promises (activateSection sd ctx w) = promises w"
  "clock (activateSection sd ctx w) = clock w"
  "nextHandle (activateSection sd ctx w) = nextHandle w"
  "retryAttempt (activateSection sd ctx w) = retryAttempt w"
  by (simp_all add: activateSection_def emit_def)

lemma trace_initModules:
  "trace (initModules ms w) = trace w @ map (\<lambda>m. ModuleDefault m clientRouter) ms"
  unfolding initModules_def
  by (induction ms arbitrary: w) (simp_all add: emit_def)

lemma initModules_frame:
  "loadedSections (initModules ms w) = loadedSections w"
  "timeouts (initModules ms w) = timeouts w"
  "promises (initModules ms w) = promises w"
  "clock (initModules ms w) = clock w"
  "nextHandle (initModules ms w) = nextHandle w"
  "retryAttempt (initModules ms w) = retryAttempt w"
  unfolding initModules_def
  by (induction ms arbitrary: w, simp_all add: emit_def)+

lemma trace_onResolved:
  "trace (onResolved sd ctx ms w) =
     trace w @ (if isLoaded w (module sd) then [] else map (\<lambda>m. ModuleDefault m clientRouter) ms)
       @ [SetSection sd ctx, Dispatch ctx (SECTION_SET False),
          Dispatch ctx activateNextLayoutFocus, Next ctx]"
  by (simp add: onResolved_def Let_def trace_activateSection trace_initModules)

lemma loadedSections_onResolved:
  "loadedSections (onResolved sd ctx ms w) =
     (if isLoaded w (module sd) then loadedSections w else (loadedSections w)(module sd \<mapsto> True))"
  by (simp add: onResolved_def Let_def activateSection_frame initModules_frame)

lemma onResolved_frame:
  "timeouts (onResolved sd ctx ms w) = timeouts w"
  "promises (onResolved sd ctx ms w) = promises w"
  "clock (onResolved sd ctx ms w) = clock w"
  "nextHandle (onResolved sd ctx ms w) = nextHandle w"
  "retryAttempt (onResolved sd ctx ms w) = retryAttempt w"
  by (simp_all add: onResolved_def Let_def activateSection_frame initModules_frame)

lemma trace_onRejected:
  "trace (onRejected env sd ctx w) =
     trace w @ (if \<not> LoadingError_isRetry w \<and> NODE_ENV env \<noteq> ''development''
                then [Retry (name sd)]
                else [Dispatch ctx (SECTION_SET False), Show ctx (name sd)])"
  by (simp add: onRejected_def LoadingError_retry_def LoadingError_show_def
      LoadingError_isRetry_def emit_def)

lemma onRejected_frame:
  "loadedSections (onRejected env sd ctx w) = loadedSections w"
  "timeouts (onRejected env sd ctx w) = timeouts w"
  "promises (onRejected env sd ctx w) = promises w"
  "clock (onRejected env sd ctx w) = clock w"
  "nextHandle (onRejected env sd ctx w) = nextHandle w"
  by (simp_all add: onRejected_def LoadingError_retry_def LoadingError_show_def emit_def)

lemma retryAttempt_onRejected:
  "retryAttempt (onRejected env sd ctx w) =
     (retryAttempt w \<or> NODE_ENV env \<noteq> ''development'')"
  by (auto simp add: onRejected_def LoadingError_retry_def LoadingError_show_def
      LoadingError_isRetry_def emit_def)

lemma clearTimeout_frame:
  "loadedSections (clearTimeout h w) = loadedSections w"
  "trace (clearTimeout h w) = trace w"
  "promises (clearTimeout h w) = promises w"
  "clock (clearTimeout h w) = clock w"
  "nextHandle (clearTimeout h w) = nextHandle w"
  "retryAttempt (clearTimeout h w) = retryAttempt w"
  by (simp_all add: clearTimeout_def)

lemma isLoaded_cong: "loadedSections w' = loadedSections w \<Longrightarrow> isLoaded w' m = isLoaded w m"
  by (simp add: isLoaded_def)

lemma trace_settle:
  assumes "map_of (promises w) p = Some (sd, ctx, t)"
  shows "trace (settle env p (Resolved ms) w) =
           trace w @ (if isLoaded w (module sd) then [] else map (\<lambda>m. ModuleDefault m clientRouter) ms)
             @ [SetSection sd ctx, Dispatch ctx (SECTION_SET False),
                Dispatch ctx activateNextLayoutFocus, Next ctx]"
    and "trace (settle env p Rejected w) =
           trace w @ (if \<not> LoadingError_isRetry w \<and> NODE_ENV env \<noteq> ''development''
                      then [Retry (name sd)]
                      else [Dispatch ctx (SECTION_SET False), Show ctx (name sd)])"
  using assms
  by (simp_all add: settle_def Let_def clearTimeout_frame trace_onResolved trace_onRejected
      isLoaded_def LoadingError_isRetry_def)

lemma settle_not_pending: "map_of (promises w) p = None \<Longrightarrow> settle env p out w = w"
  by (simp add: settle_def)

lemma loadedSections_settle:
  assumes "map_of (promises w) p = Some (sd, ctx, t)"
  shows "loadedSections (settle env p (Resolved ms) w) =
           (if isLoaded w (module sd) then loadedSections w else (loadedSections w)(module sd \<mapsto> True))"
    and "loadedSections (settle env p Rejected w) = loadedSections w"
  using assms
  by (simp_all add: settle_def Let_def clearTimeout_frame loadedSections_onResolved
      onRejected_frame isLoaded_def)

lemma pageHandler_loaded:
  "\<not> envRestricted env sd \<Longrightarrow> isLoaded w (module sd) \<Longrightarrow>
     pageHandler env sd ctx w = activateSection sd ctx w"
  by (simp add: pageHandler_def)

lemma pageHandler_start:
  "\<not> envRestricted env sd \<Longrightarrow> \<not> isLoaded w (module sd) \<Longrightarrow>
     pageHandler env sd ctx w =
       w\<lparr>trace := trace w @ [Dispatch ctx (SECTION_SET True), Preload (name sd)],
         timeouts := timeouts w @ [(nextHandle w, clock w + 400, ctx, name sd)],
         nextHandle := Suc (nextHandle w),
         promises := promises w @ [(nextHandle w, sd, ctx, nextHandle w)]\<rparr>"
  by (simp add: pageHandler_def setTimeout_def emit_def Let_def)

lemma loadedSections_pageHandler: "loadedSections (pageHandler env sd ctx w) = loadedSections w"
  by (simp add: pageHandler_def setTimeout_def emit_def Let_def activateSection_frame)

lemma loadedSections_elapse: "loadedSections (elapse d w) = loadedSections w"
  by (simp add: elapse_def)

lemma isLoaded_step: "isLoaded w m \<Longrightarrow> isLoaded (step env w e) m"
proof (cases e)
  case (RouteMatch sd ctx)
  assume "isLoaded w m"
  then show ?thesis using RouteMatch by (simp add: isLoaded_cong [OF loadedSections_pageHandler])
next
  case (Settle p out)
  assume L: "isLoaded w m"
  show ?thesis
  proof (cases "map_of (promises w) p")
    case None
    then show ?thesis using L Settle by (simp add: settle_not_pending)
  next
    case (Some a)
    obtain sd ctx t where a: "a = (sd, ctx, t)" by (cases a) auto
    show ?thesis using L Settle Some a
      by (cases out) (auto simp add: isLoaded_def loadedSections_settle[of w p sd ctx t])
  qed
next
  case (Elapse d)
  assume "isLoaded w m"
  then show ?thesis using Elapse by (simp add: isLoaded_cong [OF loadedSections_elapse])
qed

lemma isLoaded_run: "isLoaded w m \<Longrightarrow> isLoaded (run env evs w) m"
  unfolding run_def
  by (induction evs arbitrary: w) (simp_all add: isLoaded_step)

lemma retryAttempt_frame:
  "retryAttempt (pageHandler env sd ctx w) = retryAttempt w"
  "retryAttempt (elapse d w) = retryAttempt w"
  by (simp_all add: pageHandler_def setTimeout_def emit_def Let_def activateSection_frame
      elapse_def)

lemma trace_pageHandler:
  "trace (pageHandler env sd ctx w) =
     trace w @ (if envRestricted env sd then [Next ctx]
                else if isLoaded w (module sd)
                then [SetSection sd ctx, Dispatch ctx (SECTION_SET False),
                      Dispatch ctx activateNextLayoutFocus, Next ctx]
                else [Dispatch ctx (SECTION_SET True), Preload (name sd)])"
  by (simp add: pageHandler_def setTimeout_def emit_def Let_def trace_activateSection)

lemma trace_elapse: "trace (elapse d w) = trace w @ fired d w"
  by (simp add: elapse_def)

lemma fired_no_retry: "filter isRetryCall (fired d w) = []"
  by (simp add: fired_def reportWaiting_def filter_empty_conv)

lemma retryAttempt_settle:
  assumes "map_of (promises w) p = Some (sd, ctx, t)"
  shows "retryAttempt (settle env p (Resolved ms) w) = retryAttempt w"
    and "retryAttempt (settle env p Rejected w) = (retryAttempt w \<or> NODE_ENV env \<noteq> ''development'')"
  using assms
  by (simp_all add: settle_def Let_def clearTimeout_frame onResolved_frame retryAttempt_onRejected)

lemma retryBudget_step: "retryBudget (step env w e) \<le> retryBudget w"
proof (cases e)
  case (RouteMatch sd ctx)
  then show ?thesis
    by (simp add: retryBudget_def trace_pageHandler retryAttempt_frame)
next
  case (Settle p out)
  show ?thesis
  proof (cases "map_of (promises w) p")
    case None
    then show ?thesis using Settle by (simp add: settle_not_pending)
  next
    case (Some a)
    obtain sd ctx t where a: "map_of (promises w) p = Some (sd, ctx, t)"
      using Some by (cases a) auto
    show ?thesis using Settle
      by (cases out)
        (auto simp add: retryBudget_def trace_settle [OF a] retryAttempt_settle [OF a]
          LoadingError_isRetry_def)
  qed
next
  case (Elapse d)
  then show ?thesis
    by (simp add: retryBudget_def trace_elapse retryAttempt_frame fired_no_retry)
qed

lemma retryBudget_run: "retryBudget (run env evs w) \<le> retryBudget w"
  unfolding run_def
proof (induction evs arbitrary: w)
  case Nil
  show ?case by simp
next
  case (Cons e evs)
  have "retryBudget (foldl (step env) (step env w e) evs) \<le> retryBudget (step env w e)"
    by (rule Cons.IH)
  also have "\<dots> \<le> retryBudget w" by (rule retryBudget_step)
  finally show ?case by simp
qed

lemma isLoadingAfter_append:
  "isLoadingAfter b (xs @ ys) = isLoadingAfter (isLoadingAfter b xs) ys"
  by (induction b xs rule: isLoadingAfter.induct) simp_all

lemma isLoadingAfter_fired: "isLoadingAfter b (fired d w) = b"
proof -
  have "isLoadingAfter b (map (\<lambda>e. reportWaiting (f e) (g e)) ts) = b" for f g
    and ts :: "(nat \<times> nat \<times> route_context \<times> string) list"
    by (induction ts) (simp_all add: reportWaiting_def)
  then show ?thesis by (simp add: fired_def)
qed

lemma elapse_frame:
  "promises (elapse d w) = promises w"
  "nextHandle (elapse d w) = nextHandle w"
  by (simp_all add: elapse_def)

lemma newCalls_append: "trace w' = trace w @ xs \<Longrightarrow> newCalls w w' = xs"
  by (simp add: newCalls_def)

lemma newCalls_step:
  "newCalls w (step env w e) =
    (case e of
       RouteMatch sd ctx \<Rightarrow>
         (if envRestricted env sd then [Next ctx]
          else if isLoaded w (module sd)
          then [SetSection sd ctx, Dispatch ctx (SECTION_SET False),
                Dispatch ctx activateNextLayoutFocus, Next ctx]
          else [Dispatch ctx (SECTION_SET True), Preload (name sd)])
     | Settle p out \<Rightarrow>
         (case map_of (promises w) p of
            None \<Rightarrow> []
          | Some (sd, ctx, t) \<Rightarrow>
              (case out of
                 Resolved ms \<Rightarrow>
                   (if isLoaded w (module sd) then []
                    else map (\<lambda>m. ModuleDefault m clientRouter) ms)
                   @ [SetSection sd ctx, Dispatch ctx (SECTION_SET False),
                      Dispatch ctx activateNextLayoutFocus, Next ctx]
               | Rejected \<Rightarrow>
                   (if \<not> LoadingError_isRetry w \<and> NODE_ENV env \<noteq> ''development''
                    then [Retry (name sd)]
                    else [Dispatch ctx (SECTION_SET False), Show ctx (name sd)])))
     | Elapse d \<Rightarrow> fired d w)"
proof (cases e)
  case (RouteMatch sd ctx)
  then show ?thesis by (simp add: newCalls_append [OF trace_pageHandler])
next
  case (Settle p out)
  show ?thesis
  proof (cases "map_of (promises w) p")
    case None
    then show ?thesis using Settle by (simp add: settle_not_pending newCalls_def)
  next
    case (Some a)
    obtain sd ctx t where a: "map_of (promises w) p = Some (sd, ctx, t)"
      using Some by (cases a) auto
    show ?thesis using Settle a
      by (cases out) (simp_all add: newCalls_append [OF trace_settle(1) [OF a]]
          newCalls_append [OF trace_settle(2) [OF a]])
  qed
next
  case (Elapse d)
  then show ?thesis by (simp add: newCalls_append [OF trace_elapse])
qed

lemma clears_only_by_activation_or_display:
  assumes "Dispatch c (SECTION_SET False) \<in> set (newCalls w (step env w e))"
  shows "(\<exists>sd. SetSection sd c \<in> set (newCalls w (step env w e)))
         \<or> (\<exists>n. Show c n \<in> set (newCalls w (step env w e)))"
proof (cases e)
  case (RouteMatch sd ctx)
  then show ?thesis using assms newCalls_step [of w env "RouteMatch sd ctx"]
    by (auto split: if_splits)
next
  case (Settle p out)
  then show ?thesis using assms newCalls_step [of w env "Settle p out"]
    by (cases out) (auto split: if_splits option.splits)
next
  case (Elapse d)
  then show ?thesis using assms newCalls_step [of w env "Elapse d"]
    by (auto simp add: fired_def reportWaiting_def)
qed

lemma pending_after_start:
  assumes "\<not> envRestricted env sd" "\<not> isLoaded w (module sd)"
    "nextHandle w \<notin> fst ` set (promises w)"
  shows "map_of (promises (elapse d (pageHandler env sd ctx w))) (nextHandle w)
           = Some (sd, ctx, nextHandle w)"
proof -
  have "map_of (promises w) (nextHandle w) = None"
    using assms(3) by (simp add: map_of_eq_None_iff)
  then show ?thesis
    using assms(1,2) by (simp add: pageHandler_start elapse_frame map_add_def)
qed

lemma fired_after_start:
  assumes "\<not> envRestricted env sd" "\<not> isLoaded w (module sd)"
  shows "fired d (pageHandler env sd ctx w) =
           fired d w @ (if 400 \<le> d then [reportWaiting ctx (name sd)] else [])"
  using assms by (simp add: pageHandler_start fired_def isDue_def)

lemma timeouts_settle:
  assumes "map_of (promises w) p = Some (sd, ctx, t)"
  shows "timeouts (settle env p out w) = filter (\<lambda>e. fst e \<noteq> t) (timeouts w)"
  using assms
  by (cases out) (simp_all add: settle_def Let_def clearTimeout_def onResolved_frame onRejected_frame)

lemma newCalls_settle_elapse:
  "newCalls (elapse d w) (settle env p out (elapse d w)) = newCalls w (settle env p out w)"
  using newCalls_step [of "elapse d w" env "Settle p out"] newCalls_step [of w env "Settle p out"]
  by (simp add: elapse_frame isLoaded_cong [OF loadedSections_elapse] LoadingError_isRetry_def
      retryAttempt_frame split: option.splits outcome.splits)

lemma reportWaiting_not_in_settle:
  "reportWaiting c n \<notin> set (newCalls w (settle env p out w))"
  using newCalls_step [of w env "Settle p out"]
  by (cases out) (auto simp add: reportWaiting_def split: option.splits if_splits)

lemma trace_step_append: "trace (step env w e) = trace w @ newCalls w (step env w e)"
proof (cases e)
  case (RouteMatch sd ctx)
  then show ?thesis by (simp add: newCalls_def trace_pageHandler)
next
  case (Settle p out)
  show ?thesis
  proof (cases "map_of (promises w) p")
    case None
    then show ?thesis using Settle by (simp add: settle_not_pending newCalls_def)
  next
    case (Some a)
    obtain sd ctx t where a: "map_of (promises w) p = Some (sd, ctx, t)"
      using Some by (cases a) auto
    show ?thesis using Settle
      by (cases out) (simp_all add: newCalls_def trace_settle [OF a])
  qed
next
  case (Elapse d)
  then show ?thesis by (simp add: newCalls_def trace_elapse)
qed

lemma quiet_load_report_count:
  assumes q: "timeouts w = []" "promises w = []"
    and s: "\<not> envRestricted env sd" "\<not> isLoaded w (module sd)"
  shows "length (filter (\<lambda>e. e = reportWaiting ctx (name sd))
           (newCalls w (run env [RouteMatch sd ctx, Elapse d1, Settle (nextHandle w) out,
                                 Elapse d2] w)))
         = (if 400 \<le> d1 then 1 else 0)"
proof -
  define w1 where "w1 = pageHandler env sd ctx w"
  define w2 where "w2 = elapse d1 w1"
  define w3 where "w3 = settle env (nextHandle w) out w2"
  define w4 where "w4 = elapse d2 w3"
  have t1: "trace w1 = trace w @ [Dispatch ctx (SECTION_SET True), Preload (name sd)]"
    using s by (simp add: w1_def trace_pageHandler)
  have f1: "fired d1 w1 = (if 400 \<le> d1 then [reportWaiting ctx (name sd)] else [])"
    using s q by (simp add: w1_def fired_after_start) (simp add: fired_def)
  have t2: "trace w2 = trace w1 @ fired d1 w1"
    by (simp add: w2_def trace_elapse)
  have p2: "map_of (promises w2) (nextHandle w) = Some (sd, ctx, nextHandle w)"
    using s q by (simp add: w2_def w1_def pending_after_start)
  have t3: "trace w3 = trace w2 @ newCalls w2 w3"
    using trace_step_append [of env w2 "Settle (nextHandle w) out"] by (simp add: w3_def)
  have n3: "reportWaiting ctx (name sd) \<notin> set (newCalls w2 w3)"
    unfolding w3_def by (rule reportWaiting_not_in_settle)
  have "timeouts w2 = filter (\<lambda>e. \<not> isDue (clock w1 + d1) e) [(nextHandle w, clock w + 400, ctx, name sd)]"
    using s q by (simp add: w2_def w1_def elapse_def pageHandler_start)
  then have "timeouts w3 = []"
    by (simp add: w3_def timeouts_settle [OF p2])
  then have t4: "trace w4 = trace w3"
    by (simp add: w4_def trace_elapse fired_def)
  have "newCalls w w4 =
          [Dispatch ctx (SECTION_SET True), Preload (name sd)] @ fired d1 w1 @ newCalls w2 w3"
    by (simp add: newCalls_def [of w w4] t4 t3 t2 t1)
  moreover have "filter (\<lambda>e. e = reportWaiting ctx (name sd)) (newCalls w2 w3) = []"
    using n3 by (auto simp add: filter_empty_conv)
  ultimately have "length (filter (\<lambda>e. e = reportWaiting ctx (name sd)) (newCalls w w4))
         = (if 400 \<le> d1 then 1 else 0)"
    by (simp add: f1 reportWaiting_def)
  then show ?thesis
    by (simp add: run_def w4_def w3_def w2_def w1_def)
qed

subsection \<open>Handles stay fresh in every run\<close>

lemma handlesFresh_initialWorld: "handlesFresh initialWorld"
  by (simp add: handlesFresh_def initialWorld_def)

lemma handlesFresh_unused: "handlesFresh w \<Longrightarrow> nextHandle w \<notin> fst ` set (promises w)"
  by (auto simp add: handlesFresh_def)

lemma promises_settle:
  "set (promises (settle env p out w)) \<subseteq> set (promises w)"
  "nextHandle (settle env p out w) = nextHandle w"
  by (cases out; auto simp add: settle_def Let_def clearTimeout_frame onResolved_frame
      onRejected_frame split: option.splits)+

lemma handlesFresh_step: "handlesFresh w \<Longrightarrow> handlesFresh (step env w e)"
proof (cases e)
  case (RouteMatch sd ctx)
  assume f: "handlesFresh w"
  consider "envRestricted env sd" | "\<not> envRestricted env sd" "isLoaded w (module sd)"
    | "\<not> envRestricted env sd" "\<not> isLoaded w (module sd)" by blast
  then show ?thesis
  proof cases
    case 1
    then show ?thesis using f RouteMatch
      by (simp add: handlesFresh_def pageHandler_def emit_def)
  next
    case 2
    then show ?thesis using f RouteMatch
      by (simp add: handlesFresh_def pageHandler_loaded activateSection_frame)
  next
    case 3
    then show ?thesis using f RouteMatch
      by (auto simp add: handlesFresh_def pageHandler_start less_Suc_eq)
  qed
next
  case (Settle p out)
  assume "handlesFresh w"
  then show ?thesis using Settle promises_settle [of env p out w]
    by (auto simp add: handlesFresh_def)
next
  case (Elapse d)
  assume "handlesFresh w"
  then show ?thesis using Elapse by (simp add: handlesFresh_def elapse_frame)
qed

lemma handlesFresh_run: "handlesFresh w \<Longrightarrow> handlesFresh (run env evs w)"
  unfolding run_def
  by (induction evs arbitrary: w) (simp_all add: handlesFresh_step)

subsection \<open>The example worlds are reached\<close>

lemma themesLoading_reached:
  "run production [RouteMatch themes 1] initialWorld = themesLoading"
  by (simp add: run_def pageHandler_def envRestricted_def isLoaded_def themes_def
      production_def initialWorld_def setTimeout_def emit_def themesLoading_def)

lemma themesLoadedPending_reached:
  "run production [RouteMatch themes 2, Settle 0 (Resolved [10, 11])] themesLoading
     = themesLoadedPending"
  by (simp add: run_def pageHandler_def envRestricted_def isLoaded_def themes_def
      production_def setTimeout_def emit_def themesLoading_def settle_def onResolved_def
      initModules_def activateSection_def clearTimeout_def themesLoadedPending_def)

section \<open>The claims about the middleware\<close>

text \<open>
  Claim C8. When the section definition declares an \<^verbatim>\<open>envId\<close> list and the current
  environment id is not in it, a route match only calls \<^verbatim>\<open>next()\<close>: the world after the
  handler is the world before it with that one call added to the trace. Nothing is
  dispatched, no load starts, no module is initialised, the section is not activated, and
  the registry, the timers and the pending loads are as they were.
\<close>

theorem env_restricted_route_skipped:
  assumes "envId sd = Some ids" and "env_id env \<notin> set ids"
  shows "step env w (RouteMatch sd ctx) = w\<lparr>trace := trace w @ [Next ctx]\<rparr>"
  using assms by (simp add: pageHandler_def envRestricted_def emit_def)

theorem env_restricted_route_skipped_witness:
  "envId devdocs = Some [''development'', ''wpcalypso'']
   \<and> env_id production \<notin> set [''development'', ''wpcalypso'']
   \<and> step production initialWorld (RouteMatch devdocs 1) = initialWorld\<lparr>trace := [Next 1]\<rparr>"
proof -
  have a: "envId devdocs = Some [''development'', ''wpcalypso'']"
    by (simp add: devdocs_def)
  have b: "env_id production \<notin> set [''development'', ''wpcalypso'']"
    by (simp add: production_def)
  from env_restricted_route_skipped [OF a b, of initialWorld 1] a b
  show ?thesis by (simp add: initialWorld_def)
qed

text \<open>
  Claim C4. Activation makes four calls, in this order: it selects the section
  (\<^verbatim>\<open>controller.setSection\<close>), dispatches \<^verbatim>\<open>SECTION_SET\<close> with \<^verbatim>\<open>isLoading: false\<close>,
  dispatches \<^verbatim>\<open>activateNextLayoutFocus()\<close>, and calls \<^verbatim>\<open>next()\<close>. A route match for a
  section already loaded is exactly this activation; a load that resolves makes the same
  four calls right after the initialisation calls (which are absent when the section was
  loaded in the meantime).
\<close>

theorem activation_order:
  "trace (activateSection sd ctx w) =
     trace w @ [SetSection sd ctx, Dispatch ctx (SECTION_SET False),
                Dispatch ctx activateNextLayoutFocus, Next ctx]
   \<and> (\<not> envRestricted env sd \<and> isLoaded w (module sd) \<longrightarrow>
        step env w (RouteMatch sd ctx) = activateSection sd ctx w)
   \<and> (map_of (promises w) p = Some (sd, ctx, t) \<longrightarrow>
        trace (settle env p (Resolved ms) w) =
          trace w @ (if isLoaded w (module sd) then []
                     else map (\<lambda>m. ModuleDefault m clientRouter) ms)
            @ [SetSection sd ctx, Dispatch ctx (SECTION_SET False),
               Dispatch ctx activateNextLayoutFocus, Next ctx])"
  by (simp add: trace_activateSection pageHandler_loaded trace_settle)

theorem activation_order_witness:
  "trace (run production [RouteMatch themes 1, Settle 0 (Resolved [10, 11]), RouteMatch themes 2]
            initialWorld) =
     [Dispatch 1 (SECTION_SET True), Preload ''themes'',
      ModuleDefault 10 clientRouter, ModuleDefault 11 clientRouter,
      SetSection themes 1, Dispatch 1 (SECTION_SET False),
      Dispatch 1 activateNextLayoutFocus, Next 1,
      SetSection themes 2, Dispatch 2 (SECTION_SET False),
      Dispatch 2 activateNextLayoutFocus, Next 2]"
proof -
  define w1 where "w1 = step production initialWorld (RouteMatch themes 1)"
  define w2 where "w2 = step production w1 (Settle 0 (Resolved [10, 11]))"
  have w1: "w1 = initialWorld\<lparr>trace := [Dispatch 1 (SECTION_SET True), Preload ''themes''],
              timeouts := [(0, 400, 1, ''themes'')], nextHandle := 1,
              promises := [(0, themes, 1, 0)]\<rparr>"
    by (simp add: w1_def pageHandler_def envRestricted_def isLoaded_def themes_def
        initialWorld_def setTimeout_def emit_def)
  have p: "map_of (promises w1) 0 = Some (themes, 1, 0)"
    by (simp add: w1)
  have n: "\<not> isLoaded w1 (module themes)"
    by (simp add: w1 isLoaded_def initialWorld_def)
  have t2: "trace w2 = [Dispatch 1 (SECTION_SET True), Preload ''themes'',
      ModuleDefault 10 clientRouter, ModuleDefault 11 clientRouter,
      SetSection themes 1, Dispatch 1 (SECTION_SET False),
      Dispatch 1 activateNextLayoutFocus, Next 1]"
    using activation_order [of themes 1 w1 production 0 0 "[10, 11]"] p n
    by (simp add: w2_def w1)
  have l2: "isLoaded w2 (module themes)"
    using p n by (simp add: w2_def loadedSections_settle [of w1 0 themes 1 0] isLoaded_def)
  have r: "\<not> envRestricted production themes"
    by (simp add: envRestricted_def themes_def)
  have "step production w2 (RouteMatch themes 2) = activateSection themes 2 w2"
    using activation_order [of themes 2 w2 production] l2 r by blast
  then have "trace (step production w2 (RouteMatch themes 2)) =
     trace w2 @ [SetSection themes 2, Dispatch 2 (SECTION_SET False),
      Dispatch 2 activateNextLayoutFocus, Next 2]"
    using activation_order [of themes 2 w2] by simp
  then show ?thesis
    using t2 by (simp add: run_def w2_def w1_def)
qed

text \<open>
  Claim C2. When a pending load is rejected, the calls made are: one
  \<^verbatim>\<open>LoadingError.retry\<close> for the same section name, and nothing else, when the attempt
  is not a retry and \<^verbatim>\<open>NODE_ENV\<close> is not \<^verbatim>\<open>development\<close>; otherwise the dispatch of
  \<^verbatim>\<open>SECTION_SET\<close> with \<^verbatim>\<open>isLoading: false\<close> followed by \<^verbatim>\<open>LoadingError.show\<close> for the
  route context and the section name, and no retry. Over any sequence of route matches,
  settlements and time steps, at most one retry is added to those already made, and none
  when the attempt already is a retry.
\<close>

theorem failed_load_retried_once:
  "(map_of (promises w) p = Some (sd, ctx, t) \<longrightarrow>
      trace (settle env p Rejected w) =
        trace w @ (if \<not> LoadingError_isRetry w \<and> NODE_ENV env \<noteq> ''development''
                   then [Retry (name sd)]
                   else [Dispatch ctx (SECTION_SET False), Show ctx (name sd)]))
   \<and> length (filter isRetryCall (trace (run env evs w)))
        \<le> length (filter isRetryCall (trace w)) + (if LoadingError_isRetry w then 0 else 1)"
proof -
  have "length (filter isRetryCall (trace (run env evs w))) \<le> retryBudget (run env evs w)"
    by (simp add: retryBudget_def)
  also have "\<dots> \<le> retryBudget w" by (rule retryBudget_run)
  finally have "length (filter isRetryCall (trace (run env evs w)))
        \<le> length (filter isRetryCall (trace w)) + (if LoadingError_isRetry w then 0 else 1)"
    by (simp add: retryBudget_def LoadingError_isRetry_def)
  then show ?thesis by (simp add: trace_settle)
qed

theorem failed_load_retried_once_witness:
  "map_of (promises themesLoading) 0 = Some (themes, 1, 0)
   \<and> trace (settle production 0 Rejected themesLoading) =
       [Dispatch 1 (SECTION_SET True), Preload ''themes'', Retry ''themes'']
   \<and> trace (settle production 0 Rejected (themesLoading\<lparr>retryAttempt := True\<rparr>)) =
       [Dispatch 1 (SECTION_SET True), Preload ''themes'',
        Dispatch 1 (SECTION_SET False), Show 1 ''themes'']
   \<and> length (filter isRetryCall (trace (run production
         [Settle 0 Rejected, RouteMatch themes 2, Settle 1 Rejected] themesLoading))) \<le> 1"
proof -
  have p: "map_of (promises themesLoading) 0 = Some (themes, 1, 0)"
    by (simp add: themesLoading_def)
  have p': "map_of (promises (themesLoading\<lparr>retryAttempt := True\<rparr>)) 0 = Some (themes, 1, 0)"
    by (simp add: themesLoading_def)
  have e: "NODE_ENV production \<noteq> ''development''"
    by (simp add: production_def)
  have n: "name themes = ''themes''"
    by (simp add: themes_def)
  have a: "trace (settle production 0 Rejected themesLoading) =
       [Dispatch 1 (SECTION_SET True), Preload ''themes'', Retry ''themes'']"
    using failed_load_retried_once [of themesLoading 0 themes 1 0 production "[]"] p e n
    by (simp add: LoadingError_isRetry_def themesLoading_def)
  have b: "trace (settle production 0 Rejected (themesLoading\<lparr>retryAttempt := True\<rparr>)) =
       [Dispatch 1 (SECTION_SET True), Preload ''themes'',
        Dispatch 1 (SECTION_SET False), Show 1 ''themes'']"
    using failed_load_retried_once
      [of "themesLoading\<lparr>retryAttempt := True\<rparr>" 0 themes 1 0 production "[]"] p' n
    by (simp add: LoadingError_isRetry_def themesLoading_def)
  have c: "length (filter isRetryCall (trace (run production
         [Settle 0 Rejected, RouteMatch themes 2, Settle 1 Rejected] themesLoading))) \<le> 1"
    using failed_load_retried_once [of themesLoading 0 themes 1 0 production
        "[Settle 0 Rejected, RouteMatch themes 2, Settle 1 Rejected]"]
    by (simp add: LoadingError_isRetry_def themesLoading_def)
  from p a b c show ?thesis by simp
qed

text \<open>
  Claim C3. When a load resolves for a section not yet marked loaded, the default export
  of each required module is called once, in order, with \<^verbatim>\<open>controller.clientRouter\<close>,
  the module identifier is then marked in the registry, and activation follows. When the
  section is already marked (a second load resolving late, or a later route match), no
  module is initialised: the load's callback only activates, and the route match
  activates at once without starting a load or touching registry, timers or pending loads.
  A mark in the registry stays through every sequence of events.
\<close>

theorem section_initialised_once:
  "(map_of (promises w) p = Some (sd, ctx, t) \<and> \<not> isLoaded w (module sd) \<longrightarrow>
      trace (settle env p (Resolved ms) w) =
        trace w @ map (\<lambda>m. ModuleDefault m clientRouter) ms
          @ [SetSection sd ctx, Dispatch ctx (SECTION_SET False),
             Dispatch ctx activateNextLayoutFocus, Next ctx]
      \<and> loadedSections (settle env p (Resolved ms) w) = (loadedSections w)(module sd \<mapsto> True)
      \<and> isLoaded (settle env p (Resolved ms) w) (module sd))
   \<and> (map_of (promises w) p = Some (sd, ctx, t) \<and> isLoaded w (module sd) \<longrightarrow>
      trace (settle env p (Resolved ms) w) =
        trace w @ [SetSection sd ctx, Dispatch ctx (SECTION_SET False),
                   Dispatch ctx activateNextLayoutFocus, Next ctx]
      \<and> loadedSections (settle env p (Resolved ms) w) = loadedSections w)
   \<and> (\<not> envRestricted env sd \<and> isLoaded w (module sd) \<longrightarrow>
      trace (step env w (RouteMatch sd ctx)) =
        trace w @ [SetSection sd ctx, Dispatch ctx (SECTION_SET False),
                   Dispatch ctx activateNextLayoutFocus, Next ctx]
      \<and> promises (step env w (RouteMatch sd ctx)) = promises w
      \<and> timeouts (step env w (RouteMatch sd ctx)) = timeouts w
      \<and> loadedSections (step env w (RouteMatch sd ctx)) = loadedSections w)
   \<and> (isLoaded w m \<longrightarrow> isLoaded (run env evs w) m)"
  by (simp add: trace_settle loadedSections_settle isLoaded_def [of "settle env p (Resolved ms) w"]
      pageHandler_loaded trace_activateSection activateSection_frame isLoaded_run)

theorem section_initialised_once_witness:
  "map_of (promises themesLoading) 0 = Some (themes, 1, 0)
   \<and> \<not> isLoaded themesLoading (module themes)
   \<and> trace (settle production 0 (Resolved [10, 11]) themesLoading) =
       [Dispatch 1 (SECTION_SET True), Preload ''themes'',
        ModuleDefault 10 clientRouter, ModuleDefault 11 clientRouter,
        SetSection themes 1, Dispatch 1 (SECTION_SET False),
        Dispatch 1 activateNextLayoutFocus, Next 1]
   \<and> isLoaded (settle production 0 (Resolved [10, 11]) themesLoading) (module themes)
   \<and> \<not> envRestricted production themes
   \<and> newCalls (settle production 0 (Resolved [10, 11]) themesLoading)
        (step production (settle production 0 (Resolved [10, 11]) themesLoading)
           (RouteMatch themes 2)) =
       [SetSection themes 2, Dispatch 2 (SECTION_SET False),
        Dispatch 2 activateNextLayoutFocus, Next 2]
   \<and> isLoaded (run production [RouteMatch themes 2, Elapse 1000, RouteMatch devdocs 3]
        (settle production 0 (Resolved [10, 11]) themesLoading)) (module themes)
   \<and> map_of (promises themesLoadedPending) 1 = Some (themes, 2, 1)
   \<and> isLoaded themesLoadedPending (module themes)
   \<and> newCalls themesLoadedPending (settle production 1 (Resolved [10, 11]) themesLoadedPending) =
       [SetSection themes 2, Dispatch 2 (SECTION_SET False),
        Dispatch 2 activateNextLayoutFocus, Next 2]"
proof -
  define w2 where "w2 = settle production 0 (Resolved [10, 11]) themesLoading"
  have p: "map_of (promises themesLoading) 0 = Some (themes, 1, 0)"
    by (simp add: themesLoading_def)
  have n: "\<not> isLoaded themesLoading (module themes)"
    by (simp add: themesLoading_def isLoaded_def)
  have r: "\<not> envRestricted production themes"
    by (simp add: envRestricted_def themes_def)
  have a: "trace w2 =
       [Dispatch 1 (SECTION_SET True), Preload ''themes'',
        ModuleDefault 10 clientRouter, ModuleDefault 11 clientRouter,
        SetSection themes 1, Dispatch 1 (SECTION_SET False),
        Dispatch 1 activateNextLayoutFocus, Next 1]"
    and l: "isLoaded w2 (module themes)"
    using section_initialised_once [of themesLoading 0 themes 1 0 production "[10, 11]"] p n
    by (simp_all add: w2_def themesLoading_def)
  have "trace (step production w2 (RouteMatch themes 2)) =
          trace w2 @ [SetSection themes 2, Dispatch 2 (SECTION_SET False),
                      Dispatch 2 activateNextLayoutFocus, Next 2]"
    using section_initialised_once [of w2 0 themes 2 0 production] l r by blast
  then have b: "newCalls w2 (step production w2 (RouteMatch themes 2)) =
          [SetSection themes 2, Dispatch 2 (SECTION_SET False),
           Dispatch 2 activateNextLayoutFocus, Next 2]"
    by (simp add: newCalls_def)
  have c: "isLoaded (run production [RouteMatch themes 2, Elapse 1000, RouteMatch devdocs 3] w2)
             (module themes)"
    using section_initialised_once [of w2 0 themes 2 0 production "[]" "module themes"
        "[RouteMatch themes 2, Elapse 1000, RouteMatch devdocs 3]"] l by blast
  have p': "map_of (promises themesLoadedPending) 1 = Some (themes, 2, 1)"
    by (simp add: themesLoadedPending_def)
  have l': "isLoaded themesLoadedPending (module themes)"
    by (simp add: themesLoadedPending_def isLoaded_def themes_def)
  have "trace (settle production 1 (Resolved [10, 11]) themesLoadedPending) =
          trace themesLoadedPending @ [SetSection themes 2, Dispatch 2 (SECTION_SET False),
                                       Dispatch 2 activateNextLayoutFocus, Next 2]"
    using section_initialised_once [of themesLoadedPending 1 themes 2 1 production "[10, 11]"]
      p' l' by blast
  then have d: "newCalls themesLoadedPending
                  (settle production 1 (Resolved [10, 11]) themesLoadedPending) =
          [SetSection themes 2, Dispatch 2 (SECTION_SET False),
           Dispatch 2 activateNextLayoutFocus, Next 2]"
    by (simp add: newCalls_def)
  from p n a l r b c p' l' d show ?thesis
    unfolding w2_def by blast
qed

text \<open>
  Claim C10. In the retry branch the rejection handler makes the retry call only, so no
  \<^verbatim>\<open>SECTION_SET\<close> is dispatched and the loading flag is what it was. From a route match
  that starts a load, through any lapse of time, to the rejection answered by a retry, the
  flag ends set, whatever it was before. And in every step, a dispatch of \<^verbatim>\<open>SECTION_SET\<close>
  with \<^verbatim>\<open>isLoading: false\<close> comes with an activation of the section or with the
  loading-error display, for the same route context.
\<close>

theorem retry_keeps_loading_flag:
  "(map_of (promises w) p = Some (sd, ctx, t) \<and> \<not> LoadingError_isRetry w
      \<and> NODE_ENV env \<noteq> ''development'' \<longrightarrow>
      newCalls w (settle env p Rejected w) = [Retry (name sd)]
      \<and> isLoadingAfter b (trace (settle env p Rejected w)) = isLoadingAfter b (trace w))
   \<and> (\<not> envRestricted env sd \<and> \<not> isLoaded w (module sd) \<and> \<not> LoadingError_isRetry w
      \<and> NODE_ENV env \<noteq> ''development'' \<and> nextHandle w \<notin> fst ` set (promises w) \<longrightarrow>
      isLoadingAfter b
        (trace (run env [RouteMatch sd ctx, Elapse d, Settle (nextHandle w) Rejected] w)))
   \<and> (Dispatch c (SECTION_SET False) \<in> set (newCalls w (step env w e)) \<longrightarrow>
        (\<exists>sd'. SetSection sd' c \<in> set (newCalls w (step env w e)))
        \<or> (\<exists>n. Show c n \<in> set (newCalls w (step env w e))))"
proof (intro conjI impI)
  assume a: "map_of (promises w) p = Some (sd, ctx, t) \<and> \<not> LoadingError_isRetry w
      \<and> NODE_ENV env \<noteq> ''development''"
  then have t: "trace (settle env p Rejected w) = trace w @ [Retry (name sd)]"
    by (simp add: trace_settle)
  show "newCalls w (settle env p Rejected w) = [Retry (name sd)]"
    by (rule newCalls_append [OF t])
  show "isLoadingAfter b (trace (settle env p Rejected w)) = isLoadingAfter b (trace w)"
    by (simp add: t isLoadingAfter_append)
next
  assume a: "\<not> envRestricted env sd \<and> \<not> isLoaded w (module sd) \<and> \<not> LoadingError_isRetry w
      \<and> NODE_ENV env \<noteq> ''development'' \<and> nextHandle w \<notin> fst ` set (promises w)"
  let ?w1 = "elapse d (pageHandler env sd ctx w)"
  have p: "map_of (promises ?w1) (nextHandle w) = Some (sd, ctx, nextHandle w)"
    using a by (simp add: pending_after_start)
  have r: "\<not> LoadingError_isRetry ?w1"
    using a by (simp add: LoadingError_isRetry_def retryAttempt_frame)
  have "trace (settle env (nextHandle w) Rejected ?w1) =
          trace w @ [Dispatch ctx (SECTION_SET True), Preload (name sd)]
            @ fired d (pageHandler env sd ctx w) @ [Retry (name sd)]"
    using a r by (simp add: trace_settle(2) [OF p] trace_elapse trace_pageHandler)
  then show "isLoadingAfter b
        (trace (run env [RouteMatch sd ctx, Elapse d, Settle (nextHandle w) Rejected] w))"
    by (simp add: run_def isLoadingAfter_append isLoadingAfter_fired)
next
  assume "Dispatch c (SECTION_SET False) \<in> set (newCalls w (step env w e))"
  then show "(\<exists>sd'. SetSection sd' c \<in> set (newCalls w (step env w e)))
        \<or> (\<exists>n. Show c n \<in> set (newCalls w (step env w e)))"
    by (rule clears_only_by_activation_or_display)
qed

theorem retry_keeps_loading_flag_witness:
  "\<not> envRestricted production themes \<and> \<not> isLoaded initialWorld (module themes)
   \<and> \<not> LoadingError_isRetry initialWorld \<and> NODE_ENV production \<noteq> ''development''
   \<and> nextHandle initialWorld \<notin> fst ` set (promises initialWorld)
   \<and> isLoadingAfter False
        (trace (run production [RouteMatch themes 1, Elapse 500, Settle 0 Rejected] initialWorld))
   \<and> map_of (promises themesLoading) 0 = Some (themes, 1, 0)
   \<and> newCalls themesLoading (settle production 0 Rejected themesLoading) = [Retry ''themes'']
   \<and> Dispatch 1 (SECTION_SET False)
        \<in> set (newCalls (themesLoading\<lparr>retryAttempt := True\<rparr>)
                 (step production (themesLoading\<lparr>retryAttempt := True\<rparr>) (Settle 0 Rejected)))
   \<and> ((\<exists>sd. SetSection sd 1
            \<in> set (newCalls (themesLoading\<lparr>retryAttempt := True\<rparr>)
                 (step production (themesLoading\<lparr>retryAttempt := True\<rparr>) (Settle 0 Rejected))))
        \<or> (\<exists>n. Show 1 n
            \<in> set (newCalls (themesLoading\<lparr>retryAttempt := True\<rparr>)
                 (step production (themesLoading\<lparr>retryAttempt := True\<rparr>) (Settle 0 Rejected)))))"
proof -
  have r: "\<not> envRestricted production themes"
    by (simp add: envRestricted_def themes_def)
  have n: "\<not> isLoaded initialWorld (module themes)"
    by (simp add: initialWorld_def isLoaded_def)
  have i: "\<not> LoadingError_isRetry initialWorld"
    by (simp add: initialWorld_def LoadingError_isRetry_def)
  have e: "NODE_ENV production \<noteq> ''development''"
    by (simp add: production_def)
  have f: "nextHandle initialWorld \<notin> fst ` set (promises initialWorld)"
    by (simp add: initialWorld_def)
  have h: "nextHandle initialWorld = 0"
    by (simp add: initialWorld_def)
  have a: "isLoadingAfter False
        (trace (run production [RouteMatch themes 1, Elapse 500, Settle 0 Rejected] initialWorld))"
    using retry_keeps_loading_flag [of initialWorld 0 themes 1 0 production False 500] r n i e f
    by (simp add: h)
  have p: "map_of (promises themesLoading) 0 = Some (themes, 1, 0)"
    by (simp add: themesLoading_def)
  have i': "\<not> LoadingError_isRetry themesLoading"
    by (simp add: themesLoading_def LoadingError_isRetry_def)
  have b: "newCalls themesLoading (settle production 0 Rejected themesLoading) = [Retry ''themes'']"
    using retry_keeps_loading_flag [of themesLoading 0 themes 1 0 production] p i' e
    by (simp add: themes_def)
  define v where "v = themesLoading\<lparr>retryAttempt := True\<rparr>"
  have "map_of (promises v) 0 = Some (themes, 1, 0)"
    by (simp add: v_def themesLoading_def)
  then have "newCalls v (step production v (Settle 0 Rejected)) =
          [Dispatch 1 (SECTION_SET False), Show 1 ''themes'']"
    using newCalls_step [of v production "Settle 0 Rejected"]
    by (simp add: v_def LoadingError_isRetry_def themes_def)
  then have c: "Dispatch 1 (SECTION_SET False) \<in> set (newCalls v (step production v (Settle 0 Rejected)))"
    by simp
  have d: "(\<exists>sd. SetSection sd 1 \<in> set (newCalls v (step production v (Settle 0 Rejected))))
        \<or> (\<exists>n. Show 1 n \<in> set (newCalls v (step production v (Settle 0 Rejected))))"
    using retry_keeps_loading_flag [of v 0 themes 1 0 production False 0 1 "Settle 0 Rejected"] c
    by blast
  from r n i e f a p b c d show ?thesis
    unfolding v_def by blast
qed

text \<open>
  Claim C7. Time is the clock of the world; a timer callback runs when the clock reaches
  the time it is due. A route match that starts a load sets one timer, due 400 after the
  start, whose callback dispatches \<^verbatim>\<open>bumpStat( 'calypso_chunk_waiting', name )\<close>: when
  time passes, that dispatch is added to those of the other timers exactly when 400 or
  more has passed. Starting with no timer and no load pending, a load settled after 400 or
  more leaves exactly one such dispatch in the trace, and a load settled earlier leaves
  none, however the load settles and however much time passes afterwards. Time passing
  changes neither the pending loads nor the registry nor the calls a settlement makes,
  and after a settlement, resolved or rejected, the timer of the load is pending no more.
\<close>

theorem slow_load_reported_once:
  "(\<not> envRestricted env sd \<and> \<not> isLoaded w (module sd) \<longrightarrow>
      timeouts (step env w (RouteMatch sd ctx)) =
        timeouts w @ [(nextHandle w, clock w + 400, ctx, name sd)]
      \<and> fired d (step env w (RouteMatch sd ctx)) =
          fired d w @ (if 400 \<le> d
                       then [Dispatch ctx (bumpStat ''calypso_chunk_waiting'' (name sd))]
                       else []))
   \<and> (\<not> envRestricted env sd \<and> \<not> isLoaded w (module sd)
      \<and> timeouts w = [] \<and> promises w = [] \<longrightarrow>
      length (filter (\<lambda>e. e = Dispatch ctx (bumpStat ''calypso_chunk_waiting'' (name sd)))
        (newCalls w (run env [RouteMatch sd ctx, Elapse d1, Settle (nextHandle w) out,
                              Elapse d2] w)))
      = (if 400 \<le> d1 then 1 else 0))
   \<and> promises (elapse d w) = promises w
   \<and> loadedSections (elapse d w) = loadedSections w
   \<and> newCalls (elapse d w) (settle env p out (elapse d w)) = newCalls w (settle env p out w)
   \<and> (map_of (promises w) p = Some (sd, ctx, t) \<longrightarrow>
        t \<notin> fst ` set (timeouts (settle env p out w)))"
proof (intro conjI impI)
  assume a: "\<not> envRestricted env sd \<and> \<not> isLoaded w (module sd)"
  then show "timeouts (step env w (RouteMatch sd ctx)) =
        timeouts w @ [(nextHandle w, clock w + 400, ctx, name sd)]"
    by (simp add: pageHandler_start)
  show "fired d (step env w (RouteMatch sd ctx)) =
          fired d w @ (if 400 \<le> d
                       then [Dispatch ctx (bumpStat ''calypso_chunk_waiting'' (name sd))]
                       else [])"
    using a by (simp add: fired_after_start reportWaiting_def)
next
  assume "\<not> envRestricted env sd \<and> \<not> isLoaded w (module sd)
      \<and> timeouts w = [] \<and> promises w = []"
  then show "length (filter (\<lambda>e. e = Dispatch ctx (bumpStat ''calypso_chunk_waiting'' (name sd)))
        (newCalls w (run env [RouteMatch sd ctx, Elapse d1, Settle (nextHandle w) out,
                              Elapse d2] w)))
      = (if 400 \<le> d1 then 1 else 0)"
    using quiet_load_report_count [of w env sd ctx d1 out d2] by (simp add: reportWaiting_def)
next
  show "promises (elapse d w) = promises w" by (simp add: elapse_frame)
  show "loadedSections (elapse d w) = loadedSections w" by (simp add: loadedSections_elapse)
  show "newCalls (elapse d w) (settle env p out (elapse d w)) = newCalls w (settle env p out w)"
    by (rule newCalls_settle_elapse)
next
  assume "map_of (promises w) p = Some (sd, ctx, t)"
  then show "t \<notin> fst ` set (timeouts (settle env p out w))"
    by (auto simp add: timeouts_settle)
qed

theorem slow_load_reported_once_witness:
  "\<not> envRestricted production themes \<and> \<not> isLoaded initialWorld (module themes)
   \<and> timeouts initialWorld = [] \<and> promises initialWorld = []
   \<and> length (filter (\<lambda>e. e = Dispatch 1 (bumpStat ''calypso_chunk_waiting'' ''themes''))
        (newCalls initialWorld (run production
           [RouteMatch themes 1, Elapse 401, Settle 0 (Resolved [10]), Elapse 1000] initialWorld)))
      = 1
   \<and> length (filter (\<lambda>e. e = Dispatch 1 (bumpStat ''calypso_chunk_waiting'' ''themes''))
        (newCalls initialWorld (run production
           [RouteMatch themes 1, Elapse 399, Settle 0 Rejected, Elapse 1000] initialWorld)))
      = 0
   \<and> map_of (promises themesLoading) 0 = Some (themes, 1, 0)
   \<and> 0 \<notin> fst ` set (timeouts (settle production 0 Rejected themesLoading))
   \<and> timeouts (step production initialWorld (RouteMatch themes 1)) = [(0, 400, 1, ''themes'')]
   \<and> fired 400 (step production initialWorld (RouteMatch themes 1)) =
       [Dispatch 1 (bumpStat ''calypso_chunk_waiting'' ''themes'')]"
proof -
  have r: "\<not> envRestricted production themes"
    by (simp add: envRestricted_def themes_def)
  have n: "\<not> isLoaded initialWorld (module themes)"
    by (simp add: initialWorld_def isLoaded_def)
  have q: "timeouts initialWorld = []" "promises initialWorld = []"
    by (simp_all add: initialWorld_def)
  have h: "nextHandle initialWorld = 0" "name themes = ''themes''"
    by (simp_all add: initialWorld_def themes_def)
  have a: "length (filter (\<lambda>e. e = Dispatch 1 (bumpStat ''calypso_chunk_waiting'' ''themes''))
        (newCalls initialWorld (run production
           [RouteMatch themes 1, Elapse 401, Settle 0 (Resolved [10]), Elapse 1000] initialWorld)))
      = 1"
    using slow_load_reported_once [of production themes initialWorld 1 0 401 "Resolved [10]" 1000]
      r n q by (simp add: h)
  have b: "length (filter (\<lambda>e. e = Dispatch 1 (bumpStat ''calypso_chunk_waiting'' ''themes''))
        (newCalls initialWorld (run production
           [RouteMatch themes 1, Elapse 399, Settle 0 Rejected, Elapse 1000] initialWorld)))
      = 0"
    using slow_load_reported_once [of production themes initialWorld 1 0 399 Rejected 1000]
      r n q by (simp add: h)
  have p: "map_of (promises themesLoading) 0 = Some (themes, 1, 0)"
    by (simp add: themesLoading_def)
  have c: "0 \<notin> fst ` set (timeouts (settle production 0 Rejected themesLoading))"
    using slow_load_reported_once [of production themes themesLoading 1 0 0 Rejected 0 0 0] p
    by blast
  have k: "clock initialWorld = 0" "fired 400 initialWorld = []"
    by (simp_all add: initialWorld_def fired_def)
  have d: "timeouts (step production initialWorld (RouteMatch themes 1)) = [(0, 400, 1, ''themes'')]"
    and e: "fired 400 (step production initialWorld (RouteMatch themes 1)) =
       [Dispatch 1 (bumpStat ''calypso_chunk_waiting'' ''themes'')]"
    using slow_load_reported_once [of production themes initialWorld 1 400] r n
    by (simp_all add: h q k)
  from r n q a b p c d e show ?thesis by blast
qed

section \<open>Properties of the selectors\<close>

lemma rawProp_absent: "dom r \<subseteq> S \<Longrightarrow> k \<notin> S \<Longrightarrow> rawProp r k = Undefined"
  by (auto simp add: rawProp_def split: option.splits)

lemma find_first_match:
  "P y \<Longrightarrow> \<forall>x\<in>set xs. \<not> P x \<Longrightarrow> find P (xs @ y # ys) = Some y"
  by (induction xs) simp_all

lemma strictEquals_eq: "strictEquals a b \<Longrightarrow> a = b"
  by (induction a b rule: strictEquals.induct) simp_all

lemma strictEquals_Num: "strictEquals (JNum a) (JNum (Num n)) = (a = Num n)"
  by (cases a) simp_all

lemma createPurchaseObject_sparse:
  assumes "dom r \<subseteq> {''ID'', ''product_name'', ''blog_id''}"
  shows "createPurchaseObject r =
     \<lparr>purchaseId = toNumber (rawProp r ''ID''),
      productName = rawProp r ''product_name'',
      siteId = toNumber (rawProp r ''blog_id''),
      active = False, amount = NaN, attachedToPurchaseId = NaN,
      canExplicitRenew = False, canDisableAutoRenew = False,
      currencyCode = Undefined, currencySymbol = Undefined, domain = Undefined,
      purchaseError = Null, expiryDate = Undefined, expiryMoment = Null,
      expiryStatus = '''', hasPrivacyProtection = False, includedDomain = Undefined,
      isCancelable = False, isDomainRegistration = False, isRefundable = False,
      isRenewable = False, isRenewal = False, meta = Undefined,
      payment = \<lparr>countryCode = Undefined, countryName = Undefined,
                  paymentName = Undefined, paymentType = Undefined\<rparr>,
      priceText = ''undefinedundefined'', productId = NaN, productSlug = Undefined,
      pendingTransfer = False, refundPeriodInDays = Undefined, refundAmount = NaN,
      refundText = ''undefinedundefined'', renewDate = Undefined, renewMoment = Null,
      siteName = Undefined, subscribedDate = Undefined, subscriptionStatus = Undefined,
      tagLine = Undefined, userId = NaN\<rparr>"
proof -
  have u: "rawProp r k = Undefined" if "k \<notin> {''ID'', ''product_name'', ''blog_id''}" for k
    using assms that by (rule rawProp_absent)
  have "rawProp r ''active'' = Undefined" "rawProp r ''amount'' = Undefined"
    "rawProp r ''attached_to_purchase_id'' = Undefined"
    "rawProp r ''can_explicit_renew'' = Undefined"
    "rawProp r ''can_disable_auto_renew'' = Undefined"
    "rawProp r ''currency_code'' = Undefined" "rawProp r ''currency_symbol'' = Undefined"
    "rawProp r ''domain'' = Undefined" "rawProp r ''expiry_date'' = Undefined"
    "rawProp r ''expiry_status'' = Undefined"
    "rawProp r ''has_private_registration'' = Undefined"
    "rawProp r ''included_domain'' = Undefined" "rawProp r ''is_cancelable'' = Undefined"
    "rawProp r ''is_domain_registration'' = Undefined"
    "rawProp r ''is_refundable'' = Undefined" "rawProp r ''is_renewable'' = Undefined"
    "rawProp r ''is_renewal'' = Undefined" "rawProp r ''meta'' = Undefined"
    "rawProp r ''payment_country_code'' = Undefined"
    "rawProp r ''payment_country_name'' = Undefined"
    "rawProp r ''payment_name'' = Undefined" "rawProp r ''payment_type'' = Undefined"
    "rawProp r ''product_id'' = Undefined" "rawProp r ''product_slug'' = Undefined"
    "rawProp r ''pending_transfer'' = Undefined"
    "rawProp r ''refund_period_in_days'' = Undefined"
    "rawProp r ''refund_amount'' = Undefined" "rawProp r ''renew_date'' = Undefined"
    "rawProp r ''blogname'' = Undefined" "rawProp r ''subscribed_date'' = Undefined"
    "rawProp r ''subscription_status'' = Undefined" "rawProp r ''tag_line'' = Undefined"
    "rawProp r ''user_id'' = Undefined"
    by (simp_all add: u)
  then show ?thesis
    by (simp add: createPurchaseObject_def)
qed

text \<open>
  The model against the expectations of the tests for a loaded state, on the three
  purchases of user 123: the user is paid and has cancelable purchases, user 65535 has
  neither, and the one theme bought by user 123 is found.
\<close>

lemma tests_of_gated_selectors:
  "isUserPaid loadedState (JNum (Num 123))"
  "\<not> isUserPaid loadedState (JNum (Num 65535))"
  "hasCancelableUserPurchases loadedState (JNum (Num 123))"
  "\<not> hasCancelableUserPurchases loadedState (JNum (Num 65535))"
  "getUserPurchasedPremiumThemes loadedState (JNum (Num 123))
     = Value [createPurchaseObject (themeRecord(''user_id'' \<mapsto> JNum (Num 123)))]"
  by code_simp+

section \<open>The claims about the selectors\<close>

text \<open>
  Claim C1. In every state whose flag \<^verbatim>\<open>hasLoadedUserPurchasesFromServer\<close> is false,
  whatever the purchase data and whoever the user, \<^verbatim>\<open>isUserPaid\<close> and
  \<^verbatim>\<open>hasCancelableUserPurchases\<close> are false and \<^verbatim>\<open>getUserPurchasedPremiumThemes\<close> is the
  value \<^verbatim>\<open>false\<close>.
\<close>

theorem not_loaded_gives_false:
  assumes "\<not> hasLoadedUserPurchasesFromServer st"
  shows "\<not> isUserPaid st u \<and> \<not> hasCancelableUserPurchases st u
         \<and> getUserPurchasedPremiumThemes st u = IsFalse"
  using assms
  by (simp add: isUserPaid_def hasCancelableUserPurchases_def getUserPurchasedPremiumThemes_def)

theorem not_loaded_gives_false_witness:
  "\<not> hasLoadedUserPurchasesFromServer notReadyState
   \<and> \<not> isUserPaid notReadyState (JNum (Num 123))
   \<and> \<not> hasCancelableUserPurchases notReadyState (JNum (Num 123))
   \<and> getUserPurchasedPremiumThemes notReadyState (JNum (Num 123)) = IsFalse"
proof -
  have a: "\<not> hasLoadedUserPurchasesFromServer notReadyState"
    by (simp add: notReadyState_def)
  from not_loaded_gives_false [OF a, of "JNum (Num 123)"] a show ?thesis by simp
qed

text \<open>
  Claim C5. Let a raw record have no property besides \<^verbatim>\<open>ID\<close>, \<^verbatim>\<open>product_name\<close> and
  \<^verbatim>\<open>blog_id\<close>, and be the first record of the state with its numeric id. Then
  \<^verbatim>\<open>getByPurchaseId\<close> does return a purchase, with every property of the view model: the
  numeric properties without a raw value are \<open>NaN\<close>, the optional ones are
  \<^verbatim>\<open>undefined\<close>, the flags are false, the moments and the error are \<^verbatim>\<open>null\<close>, and the
  texts are built from \<^verbatim>\<open>undefined\<close>.
\<close>

theorem sparse_record_view_model:
  assumes "dom r \<subseteq> {''ID'', ''product_name'', ''blog_id''}"
    and "toNumber (rawProp r ''ID'') = Num n"
    and "data st = before @ r # rest"
    and "\<forall>x\<in>set before. toNumber (rawProp x ''ID'') \<noteq> Num n"
  shows "getByPurchaseId st (JNum (Num n)) = Some
     \<lparr>purchaseId = Num n,
      productName = rawProp r ''product_name'',
      siteId = toNumber (rawProp r ''blog_id''),
      active = False, amount = NaN, attachedToPurchaseId = NaN,
      canExplicitRenew = False, canDisableAutoRenew = False,
      currencyCode = Undefined, currencySymbol = Undefined, domain = Undefined,
      purchaseError = Null, expiryDate = Undefined, expiryMoment = Null,
      expiryStatus = '''', hasPrivacyProtection = False, includedDomain = Undefined,
      isCancelable = False, isDomainRegistration = False, isRefundable = False,
      isRenewable = False, isRenewal = False, meta = Undefined,
      payment = \<lparr>countryCode = Undefined, countryName = Undefined,
                  paymentName = Undefined, paymentType = Undefined\<rparr>,
      priceText = ''undefinedundefined'', productId = NaN, productSlug = Undefined,
      pendingTransfer = False, refundPeriodInDays = Undefined, refundAmount = NaN,
      refundText = ''undefinedundefined'', renewDate = Undefined, renewMoment = Null,
      siteName = Undefined, subscribedDate = Undefined, subscriptionStatus = Undefined,
      tagLine = Undefined, userId = NaN\<rparr>"
proof -
  let ?P = "\<lambda>p. strictEquals (JNum (purchaseId p)) (JNum (Num n))"
  have i: "purchaseId (createPurchaseObject x) = toNumber (rawProp x ''ID'')" for x
    by (simp add: createPurchaseObject_def)
  have "getPurchases st =
          map createPurchaseObject before @ createPurchaseObject r # map createPurchaseObject rest"
    by (simp add: getPurchases_def createPurchasesArray_def assms(3))
  moreover have "?P (createPurchaseObject r)"
    by (simp add: strictEquals_Num i assms(2))
  moreover have "\<forall>p\<in>set (map createPurchaseObject before). \<not> ?P p"
    using assms(4) by (simp add: strictEquals_Num i)
  ultimately have "getByPurchaseId st (JNum (Num n)) = Some (createPurchaseObject r)"
    by (simp add: getByPurchaseId_def find_first_match)
  then show ?thesis
    by (simp add: createPurchaseObject_sparse [OF assms(1)] assms(2))
qed

theorem sparse_record_view_model_witness:
  "getByPurchaseId planState (JNum (Num 2)) = Some
     \<lparr>purchaseId = Num 2,
      productName = JStr ''premium plan'',
      siteId = Num 1337,
      active = False, amount = NaN, attachedToPurchaseId = NaN,
      canExplicitRenew = False, canDisableAutoRenew = False,
      currencyCode = Undefined, currencySymbol = Undefined, domain = Undefined,
      purchaseError = Null, expiryDate = Undefined, expiryMoment = Null,
      expiryStatus = '''', hasPrivacyProtection = False, includedDomain = Undefined,
      isCancelable = False, isDomainRegistration = False, isRefundable = False,
      isRenewable = False, isRenewal = False, meta = Undefined,
      payment = \<lparr>countryCode = Undefined, countryName = Undefined,
                  paymentName = Undefined, paymentType = Undefined\<rparr>,
      priceText = ''undefinedundefined'', productId = NaN, productSlug = Undefined,
      pendingTransfer = False, refundPeriodInDays = Undefined, refundAmount = NaN,
      refundText = ''undefinedundefined'', renewDate = Undefined, renewMoment = Null,
      siteName = Undefined, subscribedDate = Undefined, subscriptionStatus = Undefined,
      tagLine = Undefined, userId = NaN\<rparr>"
proof -
  have a: "dom planRecord \<subseteq> {''ID'', ''product_name'', ''blog_id''}"
    by (simp add: planRecord_def)
  have b: "toNumber (rawProp planRecord ''ID'') = Num 2"
    by (simp add: planRecord_def rawProp_def)
  have c: "data planState = [domainRecord] @ planRecord # []"
    by (simp add: planState_def)
  have d: "\<forall>x\<in>set [domainRecord]. toNumber (rawProp x ''ID'') \<noteq> Num 2"
    by (simp add: domainRecord_def rawProp_def)
  have e: "rawProp planRecord ''product_name'' = JStr ''premium plan''"
    "toNumber (rawProp planRecord ''blog_id'') = Num 1337"
    by (simp_all add: planRecord_def rawProp_def)
  from sparse_record_view_model [OF a b c d] show ?thesis
    by (simp only: e)
qed

text \<open>
  Claim C6. For every state and every query, \<^verbatim>\<open>getSitePurchases\<close> returns as many
  purchases as there are raw records whose \<^verbatim>\<open>blog_id\<close>, made a number, strictly equals
  the query, and the site identifier of every purchase returned is the query itself.
\<close>

theorem site_purchases_filtered:
  "length (getSitePurchases st q) =
     length (filter (\<lambda>r. strictEquals (JNum (toNumber (rawProp r ''blog_id''))) q) (data st))
   \<and> (\<forall>p\<in>set (getSitePurchases st q). JNum (siteId p) = q)"
proof
  have "siteId (createPurchaseObject x) = toNumber (rawProp x ''blog_id'')" for x
    by (simp add: createPurchaseObject_def)
  then show "length (getSitePurchases st q) =
     length (filter (\<lambda>r. strictEquals (JNum (toNumber (rawProp r ''blog_id''))) q) (data st))"
    by (simp add: getSitePurchases_def getPurchases_def createPurchasesArray_def filter_map
        comp_def)
  show "\<forall>p\<in>set (getSitePurchases st q). JNum (siteId p) = q"
    by (auto simp add: getSitePurchases_def dest: strictEquals_eq)
qed

theorem site_purchases_filtered_witness:
  "length (getSitePurchases siteState (JNum (Num 1234))) = 2
   \<and> map siteId (getSitePurchases siteState (JNum (Num 1234))) = [Num 1234, Num 1234]
   \<and> length (getSitePurchases siteState (JNum (Num 4321))) = 0"
proof -
  let ?xs = "getSitePurchases siteState (JNum (Num 1234))"
  have l: "length ?xs = 2"
    using site_purchases_filtered [of siteState "JNum (Num 1234)"]
    by (simp add: siteState_def siteRecords_def rawProp_def stringToNumber_def digitVal_def)
  have "\<forall>p\<in>set ?xs. siteId p = Num 1234"
    using site_purchases_filtered [of siteState "JNum (Num 1234)"] by simp
  then have "map siteId ?xs = replicate (length ?xs) (Num 1234)"
    by (simp add: map_replicate_const [symmetric] cong: map_cong)
  then have m: "map siteId ?xs = [Num 1234, Num 1234]"
    by (simp add: l numeral_2_eq_2)
  have z: "length (getSitePurchases siteState (JNum (Num 4321))) = 0"
    using site_purchases_filtered [of siteState "JNum (Num 4321)"]
    by (simp add: siteState_def siteRecords_def rawProp_def stringToNumber_def digitVal_def)
  from l m z show ?thesis by simp
qed

text \<open>
  Claim C9. \<^verbatim>\<open>getPurchases\<close> gives one purchase per raw record of the current state,
  each the assembler's image of its record, in order. Two calls on the same state, one
  after the other, return two different arrays, each holding that sequence.
\<close>

theorem getPurchases_one_per_record:
  "length (getPurchases st) = length (data st)
   \<and> getPurchases st = map createPurchaseObject (data st)
   \<and> fst (getPurchasesCall st h) \<noteq> fst (getPurchasesCall st (snd (getPurchasesCall st h)))
   \<and> snd (getPurchasesCall st (snd (getPurchasesCall st h))) ! fst (getPurchasesCall st h)
       = getPurchases st
   \<and> snd (getPurchasesCall st (snd (getPurchasesCall st h)))
         ! fst (getPurchasesCall st (snd (getPurchasesCall st h)))
       = getPurchases st"
  by (simp add: getPurchases_def createPurchasesArray_def getPurchasesCall_def nth_append)

theorem getPurchases_one_per_record_witness:
  "length (getPurchases planState) = 2
   \<and> fst (getPurchasesCall planState []) \<noteq>
       fst (getPurchasesCall planState (snd (getPurchasesCall planState [])))"
  using getPurchases_one_per_record [of planState "[]"]
  by (simp add: planState_def)

end
